theory Spec2Isabelle
  imports Complex_Main "HOL-Library.Multiset" "HOL-Library.Log_Nat"
begin

section \<open>Supplier quote optimizer: the allocation engine\<close>

text \<open>
  The program is \<^verbatim>\<open>supplier_quote_optimizer.py\<close>. Two loops of it build allocation
  lists from the cleaned order table and the cleaned quote table:
  \<^item> the automated optimization run (the loop over \<^verbatim>\<open>orders.iterrows()\<close> that fills
    \<^verbatim>\<open>allocation\<close>, stored as \<^verbatim>\<open>optimized_allocation\<close>);
  \<^item> the final allocation (the loop over \<^verbatim>\<open>orders['PartNumber'].unique()\<close> that fills
    \<^verbatim>\<open>final_allocation\<close>), which reads the operator's \<^verbatim>\<open>supplier_selections\<close>.

  Numbers. The columns \<^verbatim>\<open>QtyRequired\<close>, \<^verbatim>\<open>UnitPrice\<close> and \<^verbatim>\<open>AvailableQty\<close> come out of
  \<^verbatim>\<open>pd.to_numeric\<close> as 64-bit integers or 64-bit floats. Their values are rationals in
  the model. The final allocation is given twice. The first definitions compute \<open>-\<close> and
  \<open>*\<close> exactly; they carry the properties that do not depend on how the program
  rounds. The definitions of the subsection on machine arithmetic are the same code with
  the subtraction and the multiplication of the number type as a parameter, and with
  the rounding of 64-bit floats as one instance; they carry the properties that do.

  Identifiers. Part numbers and supplier names are strings; the source compares
  suppliers after \<^verbatim>\<open>str(...)\<close>, which is the identity on strings.

  Sorting. The source sorts with \<^verbatim>\<open>DataFrame.sort_values('UnitPrice')\<close>, a function of
  the pandas library and not of this program. The model takes that function as the
  parameter \<open>srt\<close> of every definition that sorts, and the theorems assume of it only
  what \<open>sorts_by_price\<close> says: the result is a rearrangement of the rows in ascending
  unit price. Nothing is assumed about the order of rows of equal price.
\<close>

subsection \<open>Tables\<close>

record order_row =
  o_PartNumber :: string
  o_QtyRequired :: rat

record quote_row =
  q_Supplier :: string
  q_PartNumber :: string
  q_UnitPrice :: rat
  q_AvailableQty :: rat

text \<open>A line of \<^verbatim>\<open>final_allocation\<close>: the dictionary appended by the final allocation loop.\<close>

record alloc_line =
  a_PartNumber :: string
  a_Supplier :: string
  a_QtyAllocated :: rat
  a_UnitPrice :: rat
  a_TotalCost :: rat
  a_AllocationSource :: string

text \<open>A line of \<^verbatim>\<open>allocation\<close>: the dictionary appended by the automated optimization run.\<close>

record opt_line =
  e_PartNumber :: string
  e_Supplier :: string
  e_AllocatedQty :: rat
  e_UnitPrice :: rat
  e_Total :: rat
  e_QtyRequired :: rat
  e_Status :: string

type_synonym sorter = "quote_row list \<Rightarrow> quote_row list"

definition sorts_by_price :: "sorter \<Rightarrow> bool" where
  "sorts_by_price srt \<longleftrightarrow>
     (\<forall>qs. sorted (map q_UnitPrice (srt qs)) \<and> mset (srt qs) = mset qs)"

text \<open>\<^verbatim>\<open>Series.unique()\<close>: the distinct values in order of first appearance.\<close>

fun unique :: "'a list \<Rightarrow> 'a list" where
  "unique [] = []"
| "unique (x # xs) = x # unique (filter (\<lambda>y. y \<noteq> x) xs)"

subsection \<open>The final allocation\<close>

text \<open>
  The auto path, \<^verbatim>\<open>for _, quote in part_quotes.iterrows()\<close>: the walk stops at
  \<^verbatim>\<open>qty_needed <= 0\<close>, and a row is used only if \<^verbatim>\<open>alloc_qty > 0\<close>. The function
  returns the lines it appends, in order, and the final \<^verbatim>\<open>qty_needed\<close>.
\<close>

fun auto_loop :: "string \<Rightarrow> rat \<Rightarrow> quote_row list \<Rightarrow> alloc_line list \<times> rat" where
  "auto_loop part qty_needed [] = ([], qty_needed)"
| "auto_loop part qty_needed (quote # rest) =
     (if qty_needed \<le> 0 then ([], qty_needed)
      else
        let alloc_qty = min qty_needed (q_AvailableQty quote) in
        if alloc_qty > 0 then
          (let (ls, r) = auto_loop part (qty_needed - alloc_qty) rest in
           (\<lparr>a_PartNumber = part, a_Supplier = q_Supplier quote,
             a_QtyAllocated = alloc_qty, a_UnitPrice = q_UnitPrice quote,
             a_TotalCost = alloc_qty * q_UnitPrice quote,
             a_AllocationSource = ''Auto-Optimized''\<rparr> # ls, r))
        else auto_loop part qty_needed rest)"

text \<open>
  The walk of the partial manual selection, \<^verbatim>\<open>for _, quote in remaining_quotes.iterrows()\<close>:
  it has no \<^verbatim>\<open>alloc_qty > 0\<close> test.
\<close>

fun remaining_loop :: "string \<Rightarrow> rat \<Rightarrow> quote_row list \<Rightarrow> alloc_line list \<times> rat" where
  "remaining_loop part remaining_qty [] = ([], remaining_qty)"
| "remaining_loop part remaining_qty (quote # rest) =
     (if remaining_qty \<le> 0 then ([], remaining_qty)
      else
        let alloc_qty = min remaining_qty (q_AvailableQty quote);
            (ls, r) = remaining_loop part (remaining_qty - alloc_qty) rest
        in (\<lparr>a_PartNumber = part, a_Supplier = q_Supplier quote,
              a_QtyAllocated = alloc_qty, a_UnitPrice = q_UnitPrice quote,
              a_TotalCost = alloc_qty * q_UnitPrice quote,
              a_AllocationSource = ''Auto-Optimized (Remaining)''\<rparr> # ls, r))"

definition shortage_line :: "string \<Rightarrow> rat \<Rightarrow> alloc_line" where
  "shortage_line part qty_needed =
     \<lparr>a_PartNumber = part, a_Supplier = ''N/A (SHORTAGE)'',
      a_QtyAllocated = qty_needed, a_UnitPrice = 0, a_TotalCost = 0,
      a_AllocationSource = ''Shortage''\<rparr>"

text \<open>
  The body of the loop over the parts, for one part and its \<^verbatim>\<open>qty_needed\<close>: the lines
  appended before the shortage test, and the \<^verbatim>\<open>qty_needed\<close> that reaches the test.
  A pin whose supplier has no row for the part appends nothing and leaves
  \<^verbatim>\<open>qty_needed\<close> as it is: the \<^verbatim>\<open>if not part_quotes.empty\<close> has no \<^verbatim>\<open>else\<close>.
\<close>

definition part_body ::
  "sorter \<Rightarrow> quote_row list \<Rightarrow> (string \<rightharpoonup> string) \<Rightarrow> string \<Rightarrow> rat \<Rightarrow> alloc_line list \<times> rat"
where
  "part_body srt quotes_df supplier_selections part qty_needed =
     (case supplier_selections part of
        Some selected_supplier \<Rightarrow>
          (case filter (\<lambda>q. q_PartNumber q = part \<and> q_Supplier q = selected_supplier) quotes_df of
             [] \<Rightarrow> ([], qty_needed)
           | supplier_quote # _ \<Rightarrow>
               let available_qty = q_AvailableQty supplier_quote;
                   unit_price = q_UnitPrice supplier_quote
               in
                 if available_qty \<ge> qty_needed then
                   ([\<lparr>a_PartNumber = part, a_Supplier = selected_supplier,
                      a_QtyAllocated = qty_needed, a_UnitPrice = unit_price,
                      a_TotalCost = qty_needed * unit_price,
                      a_AllocationSource = ''Manual Selection''\<rparr>], 0)
                 else
                   let remaining_qty = qty_needed - available_qty;
                       remaining_quotes =
                         srt (filter (\<lambda>q. q_PartNumber q = part
                                          \<and> q_Supplier q \<noteq> selected_supplier
                                          \<and> q_AvailableQty q > 0) quotes_df);
                       (ls, r) = remaining_loop part remaining_qty remaining_quotes
                   in (\<lparr>a_PartNumber = part, a_Supplier = selected_supplier,
                         a_QtyAllocated = available_qty, a_UnitPrice = unit_price,
                         a_TotalCost = available_qty * unit_price,
                         a_AllocationSource = ''Manual Selection (Partial)''\<rparr> # ls, r))
      | None \<Rightarrow>
          auto_loop part qty_needed (srt (filter (\<lambda>q. q_PartNumber q = part) quotes_df)))"

text \<open>One iteration of the loop over the parts: the body, then the shortage record.\<close>

definition allocate_part ::
  "sorter \<Rightarrow> quote_row list \<Rightarrow> (string \<rightharpoonup> string) \<Rightarrow> string \<Rightarrow> rat \<Rightarrow> alloc_line list"
where
  "allocate_part srt quotes_df supplier_selections part qty_needed =
     (let (ls, r) = part_body srt quotes_df supplier_selections part qty_needed
      in ls @ (if r > 0 then [shortage_line part r] else []))"

text \<open>
  The whole loop: for each part of \<^verbatim>\<open>orders['PartNumber'].unique()\<close>, the quantity is
  \<^verbatim>\<open>part_orders.iloc[0]\<close>, the first row of that part (\<^verbatim>\<open>continue\<close> if there is none).
\<close>

definition final_allocation ::
  "sorter \<Rightarrow> order_row list \<Rightarrow> quote_row list \<Rightarrow> (string \<rightharpoonup> string) \<Rightarrow> alloc_line list"
where
  "final_allocation srt orders quotes_df supplier_selections =
     concat (map (\<lambda>part.
        case map o_QtyRequired (filter (\<lambda>r. o_PartNumber r = part) orders) of
          [] \<Rightarrow> []
        | qty_needed # _ \<Rightarrow> allocate_part srt quotes_df supplier_selections part qty_needed)
       (unique (map o_PartNumber orders)))"

text \<open>
  The session state the button handler works on. \<^verbatim>\<open>supplier_selections\<close> and
  \<^verbatim>\<open>optimized_allocation\<close> are initialised at start-up; \<^verbatim>\<open>final_allocation\<close> is absent
  until the first run stores it.
\<close>

record session_state =
  st_supplier_selections :: "string \<rightharpoonup> string"
  st_optimized_allocation :: "opt_line list"
  st_final_allocation :: "alloc_line list option"

text \<open>
  The handler of the button that generates the final allocation: it builds a new list
  from the tables and the selections and stores it,
  \<^verbatim>\<open>st.session_state.final_allocation = final_allocation\<close>.
\<close>

definition generate_final_allocation ::
  "sorter \<Rightarrow> order_row list \<Rightarrow> quote_row list \<Rightarrow> session_state \<Rightarrow> session_state"
where
  "generate_final_allocation srt orders quotes_df st =
     st\<lparr>st_final_allocation :=
          Some (final_allocation srt orders quotes_df (st_supplier_selections st))\<rparr>"

subsection \<open>The final allocation in machine arithmetic\<close>





text \<open>
  The two operations the final allocation computes with: \<^verbatim>\<open>qty_needed - alloc_qty\<close> and
  \<^verbatim>\<open>alloc_qty * unit_price\<close>. \<^verbatim>\<open>min\<close> and the comparisons return one of their arguments
  or a truth value and do not round.
\<close>

record arith =
  ar_sub :: "rat \<Rightarrow> rat \<Rightarrow> rat"
  ar_mul :: "rat \<Rightarrow> rat \<Rightarrow> rat"

definition exact_arith :: arith where
  "exact_arith = \<lparr>ar_sub = (\<lambda>a b. a - b), ar_mul = (\<lambda>a b. a * b)\<rparr>"



text \<open>
  The code of the final allocation once more, line for line as in the previous
  subsection, with the two operations taken from the arithmetic.
\<close>

fun auto_loop_m :: "arith \<Rightarrow> string \<Rightarrow> rat \<Rightarrow> quote_row list \<Rightarrow> alloc_line list \<times> rat" where
  "auto_loop_m ar part qty_needed [] = ([], qty_needed)"
| "auto_loop_m ar part qty_needed (quote # rest) =
     (if qty_needed \<le> 0 then ([], qty_needed)
      else
        let alloc_qty = min qty_needed (q_AvailableQty quote) in
        if alloc_qty > 0 then
          (let (ls, r) = auto_loop_m ar part (ar_sub ar qty_needed alloc_qty) rest in
           (\<lparr>a_PartNumber = part, a_Supplier = q_Supplier quote,
             a_QtyAllocated = alloc_qty, a_UnitPrice = q_UnitPrice quote,
             a_TotalCost = ar_mul ar alloc_qty (q_UnitPrice quote),
             a_AllocationSource = ''Auto-Optimized''\<rparr> # ls, r))
        else auto_loop_m ar part qty_needed rest)"

fun remaining_loop_m :: "arith \<Rightarrow> string \<Rightarrow> rat \<Rightarrow> quote_row list \<Rightarrow> alloc_line list \<times> rat" where
  "remaining_loop_m ar part remaining_qty [] = ([], remaining_qty)"
| "remaining_loop_m ar part remaining_qty (quote # rest) =
     (if remaining_qty \<le> 0 then ([], remaining_qty)
      else
        let alloc_qty = min remaining_qty (q_AvailableQty quote);
            (ls, r) = remaining_loop_m ar part (ar_sub ar remaining_qty alloc_qty) rest
        in (\<lparr>a_PartNumber = part, a_Supplier = q_Supplier quote,
              a_QtyAllocated = alloc_qty, a_UnitPrice = q_UnitPrice quote,
              a_TotalCost = ar_mul ar alloc_qty (q_UnitPrice quote),
              a_AllocationSource = ''Auto-Optimized (Remaining)''\<rparr> # ls, r))"

definition part_body_m ::
  "arith \<Rightarrow> sorter \<Rightarrow> quote_row list \<Rightarrow> (string \<rightharpoonup> string) \<Rightarrow> string \<Rightarrow> rat
   \<Rightarrow> alloc_line list \<times> rat"
where
  "part_body_m ar srt quotes_df supplier_selections part qty_needed =
     (case supplier_selections part of
        Some selected_supplier \<Rightarrow>
          (case filter (\<lambda>q. q_PartNumber q = part \<and> q_Supplier q = selected_supplier) quotes_df of
             [] \<Rightarrow> ([], qty_needed)
           | supplier_quote # _ \<Rightarrow>
               let available_qty = q_AvailableQty supplier_quote;
                   unit_price = q_UnitPrice supplier_quote
               in
                 if available_qty \<ge> qty_needed then
                   ([\<lparr>a_PartNumber = part, a_Supplier = selected_supplier,
                      a_QtyAllocated = qty_needed, a_UnitPrice = unit_price,
                      a_TotalCost = ar_mul ar qty_needed unit_price,
                      a_AllocationSource = ''Manual Selection''\<rparr>], 0)
                 else
                   let remaining_qty = ar_sub ar qty_needed available_qty;
                       remaining_quotes =
                         srt (filter (\<lambda>q. q_PartNumber q = part
                                          \<and> q_Supplier q \<noteq> selected_supplier
                                          \<and> q_AvailableQty q > 0) quotes_df);
                       (ls, r) = remaining_loop_m ar part remaining_qty remaining_quotes
                   in (\<lparr>a_PartNumber = part, a_Supplier = selected_supplier,
                         a_QtyAllocated = available_qty, a_UnitPrice = unit_price,
                         a_TotalCost = ar_mul ar available_qty unit_price,
                         a_AllocationSource = ''Manual Selection (Partial)''\<rparr> # ls, r))
      | None \<Rightarrow>
          auto_loop_m ar part qty_needed (srt (filter (\<lambda>q. q_PartNumber q = part) quotes_df)))"

definition allocate_part_m ::
  "arith \<Rightarrow> sorter \<Rightarrow> quote_row list \<Rightarrow> (string \<rightharpoonup> string) \<Rightarrow> string \<Rightarrow> rat
   \<Rightarrow> alloc_line list"
where
  "allocate_part_m ar srt quotes_df supplier_selections part qty_needed =
     (let (ls, r) = part_body_m ar srt quotes_df supplier_selections part qty_needed
      in ls @ (if r > 0 then [shortage_line part r] else []))"

definition final_allocation_m ::
  "arith \<Rightarrow> sorter \<Rightarrow> order_row list \<Rightarrow> quote_row list \<Rightarrow> (string \<rightharpoonup> string)
   \<Rightarrow> alloc_line list"
where
  "final_allocation_m ar srt orders quotes_df supplier_selections =
     concat (map (\<lambda>part.
        case map o_QtyRequired (filter (\<lambda>r. o_PartNumber r = part) orders) of
          [] \<Rightarrow> []
        | qty_needed # _ \<Rightarrow> allocate_part_m ar srt quotes_df supplier_selections part qty_needed)
       (unique (map o_PartNumber orders)))"

subsection \<open>The automated optimization run\<close>

text \<open>
  The walk \<^verbatim>\<open>for _, q in part_quotes.iterrows()\<close> of the optimization engine. The
  counters of \<^verbatim>\<open>optimization_stats\<close> are not part of the allocation list and are left out.
\<close>

fun engine_loop :: "string \<Rightarrow> rat \<Rightarrow> rat \<Rightarrow> quote_row list \<Rightarrow> opt_line list \<times> rat" where
  "engine_loop part original_qty_needed qty_needed [] = ([], qty_needed)"
| "engine_loop part original_qty_needed qty_needed (q # rest) =
     (if qty_needed \<le> 0 then ([], qty_needed)
      else
        let alloc_qty = min qty_needed (q_AvailableQty q) in
        if alloc_qty > 0 then
          (let total_cost = alloc_qty * q_UnitPrice q;
               (ls, r) = engine_loop part original_qty_needed (qty_needed - alloc_qty) rest
           in (\<lparr>e_PartNumber = part, e_Supplier = q_Supplier q,
                 e_AllocatedQty = alloc_qty, e_UnitPrice = q_UnitPrice q,
                 e_Total = total_cost, e_QtyRequired = original_qty_needed,
                 e_Status = ''Allocated''\<rparr> # ls, r))
        else engine_loop part original_qty_needed qty_needed rest)"

text \<open>The body of \<^verbatim>\<open>for _, order in orders.iterrows()\<close>, for one order row.\<close>

definition optimize_order :: "sorter \<Rightarrow> quote_row list \<Rightarrow> order_row \<Rightarrow> opt_line list" where
  "optimize_order srt quotes_df order =
     (let part = o_PartNumber order;
          qty_needed = o_QtyRequired order;
          part_quotes = filter (\<lambda>q. q_PartNumber q = part) quotes_df
      in
        if part_quotes = [] then
          [\<lparr>e_PartNumber = part, e_Supplier = ''NOT AVAILABLE'', e_AllocatedQty = 0,
            e_UnitPrice = 0, e_Total = 0, e_QtyRequired = qty_needed,
            e_Status = ''Not Available''\<rparr>]
        else
          let original_qty_needed = qty_needed;
              (ls, r) = engine_loop part original_qty_needed qty_needed (srt part_quotes)
          in ls @ (if r = 0 then []
                   else if r < original_qty_needed then
                     [\<lparr>e_PartNumber = part, e_Supplier = ''SHORTAGE'', e_AllocatedQty = r,
                       e_UnitPrice = 0, e_Total = 0, e_QtyRequired = original_qty_needed,
                       e_Status = ''Shortage''\<rparr>]
                   else []))"

definition optimized_allocation ::
  "sorter \<Rightarrow> order_row list \<Rightarrow> quote_row list \<Rightarrow> opt_line list"
where
  "optimized_allocation srt orders quotes_df = concat (map (optimize_order srt quotes_df) orders)"

subsection \<open>Notions the properties are stated with\<close>

text \<open>The lines of an allocation list that belong to one part.\<close>

definition part_lines :: "string \<Rightarrow> alloc_line list \<Rightarrow> alloc_line list" where
  "part_lines part ls = filter (\<lambda>l. a_PartNumber l = part) ls"

definition opt_part_lines :: "string \<Rightarrow> opt_line list \<Rightarrow> opt_line list" where
  "opt_part_lines part ls = filter (\<lambda>l. e_PartNumber l = part) ls"

text \<open>The quantity and the cost of a list of lines.\<close>

definition total_qty :: "alloc_line list \<Rightarrow> rat" where
  "total_qty ls = sum_list (map a_QtyAllocated ls)"

definition total_cost :: "alloc_line list \<Rightarrow> rat" where
  "total_cost ls = sum_list (map (\<lambda>l. a_QtyAllocated l * a_UnitPrice l) ls)"


definition supplied_lines :: "alloc_line list \<Rightarrow> alloc_line list" where
  "supplied_lines ls = filter (\<lambda>l. a_AllocationSource l \<noteq> ''Shortage'') ls"

text \<open>The order rows that are the first of their part number, in order.\<close>

fun first_rows :: "order_row list \<Rightarrow> order_row list" where
  "first_rows [] = []"
| "first_rows (r # rs) = r # first_rows (filter (\<lambda>r'. o_PartNumber r' \<noteq> o_PartNumber r) rs)"

text \<open>Insertion sort by unit price: one sorter that meets \<open>sorts_by_price\<close>.\<close>

definition insertion_sort :: sorter where
  "insertion_sort = sort_key q_UnitPrice"

text \<open>
  The quantity an allocation list gives to a supplier for a part, and the quantity that
  supplier's rows for the part offer.
\<close>

definition supplier_qty :: "string \<Rightarrow> string \<Rightarrow> alloc_line list \<Rightarrow> rat" where
  "supplier_qty part s ls =
     total_qty (filter (\<lambda>l. a_PartNumber l = part \<and> a_Supplier l = s) ls)"

definition quoted_qty :: "string \<Rightarrow> string \<Rightarrow> quote_row list \<Rightarrow> rat" where
  "quoted_qty part s quotes_df =
     sum_list (map q_AvailableQty
       (filter (\<lambda>q. q_PartNumber q = part \<and> q_Supplier q = s) quotes_df))"

text \<open>
  An assignment gives every offer row a quantity. It is feasible if each quantity lies
  between 0 and the row's available quantity; its cost is quantity times unit price,
  summed over the rows.
\<close>

type_synonym assignment = "(quote_row \<times> rat) list"

definition feasible :: "assignment \<Rightarrow> bool" where
  "feasible alt \<longleftrightarrow> list_all (\<lambda>(q, x). 0 \<le> x \<and> x \<le> q_AvailableQty q) alt"

definition assigned_qty :: "assignment \<Rightarrow> rat" where
  "assigned_qty alt = sum_list (map snd alt)"

definition assignment_cost :: "assignment \<Rightarrow> rat" where
  "assignment_cost alt = sum_list (map (\<lambda>(q, x). x * q_UnitPrice q) alt)"

text \<open>The lines of the auto path under the label of the partial manual selection.\<close>

definition relabel_remaining :: "alloc_line \<Rightarrow> alloc_line" where
  "relabel_remaining l = l\<lparr>a_AllocationSource := ''Auto-Optimized (Remaining)''\<rparr>"

subsection \<open>A sample session\<close>

text \<open>
  An order of seven parts, with a repeated row for \<open>P2\<close>; the quotes of six suppliers;
  three pins. \<open>P5\<close> has no quote, \<open>P6\<close> is pinned to a supplier that does not quote
  it, and \<open>SupplierA\<close> quotes \<open>P7\<close> twice.
\<close>

definition ex_orders :: "order_row list" where
  "ex_orders =
     [\<lparr>o_PartNumber = ''P1'', o_QtyRequired = 10\<rparr>,
      \<lparr>o_PartNumber = ''P2'', o_QtyRequired = 10\<rparr>,
      \<lparr>o_PartNumber = ''P3'', o_QtyRequired = 10\<rparr>,
      \<lparr>o_PartNumber = ''P4'', o_QtyRequired = 5\<rparr>,
      \<lparr>o_PartNumber = ''P2'', o_QtyRequired = 99\<rparr>,
      \<lparr>o_PartNumber = ''P5'', o_QtyRequired = 5\<rparr>,
      \<lparr>o_PartNumber = ''P6'', o_QtyRequired = 5\<rparr>,
      \<lparr>o_PartNumber = ''P7'', o_QtyRequired = 10\<rparr>]"

definition ex_quotes :: "quote_row list" where
  "ex_quotes =
     [\<lparr>q_Supplier = ''SupplierA'', q_PartNumber = ''P1'', q_UnitPrice = 5, q_AvailableQty = 6\<rparr>,
      \<lparr>q_Supplier = ''SupplierA'', q_PartNumber = ''P2'', q_UnitPrice = 5, q_AvailableQty = 4\<rparr>,
      \<lparr>q_Supplier = ''SupplierA'', q_PartNumber = ''P6'', q_UnitPrice = 2, q_AvailableQty = 10\<rparr>,
      \<lparr>q_Supplier = ''SupplierA'', q_PartNumber = ''P7'', q_UnitPrice = 1, q_AvailableQty = 3\<rparr>,
      \<lparr>q_Supplier = ''SupplierA'', q_PartNumber = ''P7'', q_UnitPrice = 2, q_AvailableQty = 4\<rparr>,
      \<lparr>q_Supplier = ''SupplierB'', q_PartNumber = ''P1'', q_UnitPrice = 4, q_AvailableQty = 20\<rparr>,
      \<lparr>q_Supplier = ''SupplierB'', q_PartNumber = ''P2'', q_UnitPrice = 6, q_AvailableQty = 4\<rparr>,
      \<lparr>q_Supplier = ''SupplierC'', q_PartNumber = ''P3'', q_UnitPrice = 8, q_AvailableQty = 3\<rparr>,
      \<lparr>q_Supplier = ''SupplierD'', q_PartNumber = ''P3'', q_UnitPrice = 3, q_AvailableQty = 20\<rparr>,
      \<lparr>q_Supplier = ''SupplierE'', q_PartNumber = ''P4'', q_UnitPrice = 10, q_AvailableQty = 10\<rparr>,
      \<lparr>q_Supplier = ''SupplierF'', q_PartNumber = ''P4'', q_UnitPrice = 2, q_AvailableQty = 50\<rparr>]"

definition ex_selections :: "string \<rightharpoonup> string" where
  "ex_selections =
     [''P3'' \<mapsto> ''SupplierC'', ''P4'' \<mapsto> ''SupplierE'', ''P6'' \<mapsto> ''SupplierX'']"

text \<open>
  Another way to cover the 10 units of \<open>P1\<close>: all 6 units of \<open>SupplierA\<close> and 4 of
  \<open>SupplierB\<close>.
\<close>

definition ex_assignment :: assignment where
  "ex_assignment =
     [(\<lparr>q_Supplier = ''SupplierA'', q_PartNumber = ''P1'', q_UnitPrice = 5, q_AvailableQty = 6\<rparr>, 6),
      (\<lparr>q_Supplier = ''SupplierB'', q_PartNumber = ''P1'', q_UnitPrice = 4, q_AvailableQty = 20\<rparr>, 4)]"

text \<open>
  A second sorter: it sorts by unit price as well, and puts rows of equal price in the
  reverse of their input order. Two suppliers quote \<open>P8\<close> at the same price.
\<close>

definition tie_reversing_sort :: sorter where
  "tie_reversing_sort qs = rev (sort_key (\<lambda>q. - q_UnitPrice q) qs)"

definition ex_tie_orders :: "order_row list" where
  "ex_tie_orders = [\<lparr>o_PartNumber = ''P8'', o_QtyRequired = 5\<rparr>]"

definition ex_tie_quotes :: "quote_row list" where
  "ex_tie_quotes =
     [\<lparr>q_Supplier = ''SupplierG'', q_PartNumber = ''P8'', q_UnitPrice = 2, q_AvailableQty = 5\<rparr>,
      \<lparr>q_Supplier = ''SupplierH'', q_PartNumber = ''P8'', q_UnitPrice = 2, q_AvailableQty = 5\<rparr>]"



section \<open>Properties\<close>

subsection \<open>Auxiliary facts\<close>

lemma set_unique: "set (unique xs) = set xs"
  by (induction xs rule: unique.induct) auto

lemma distinct_unique: "distinct (unique xs)"
  by (induction xs rule: unique.induct) (auto simp: set_unique)

lemma auto_loop_part: "auto_loop part q qs = (ls, r) \<Longrightarrow> l \<in> set ls \<Longrightarrow> a_PartNumber l = part"
  by (induction qs arbitrary: q ls r) (auto simp: Let_def split: if_splits prod.splits)

lemma remaining_loop_part: "remaining_loop part q qs = (ls, r) \<Longrightarrow> l \<in> set ls \<Longrightarrow> a_PartNumber l = part"
  by (induction qs arbitrary: q ls r) (auto simp: Let_def split: if_splits prod.splits)

lemma part_body_part:
  "part_body srt quotes sel part q = (ls, r) \<Longrightarrow> l \<in> set ls \<Longrightarrow> a_PartNumber l = part"
  by (auto simp: part_body_def Let_def split: option.splits list.splits if_splits prod.splits
      dest: auto_loop_part remaining_loop_part)

lemma allocate_part_eq:
  "part_body srt quotes sel part q = (ls, r) \<Longrightarrow>
   allocate_part srt quotes sel part q = ls @ (if r > 0 then [shortage_line part r] else [])"
  by (simp add: allocate_part_def)

lemma allocate_part_part:
  assumes "l \<in> set (allocate_part srt quotes sel part q)"
  shows "a_PartNumber l = part"
proof -
  obtain ls r where b: "part_body srt quotes sel part q = (ls, r)" by fastforce
  show ?thesis
    using assms part_body_part[OF b] unfolding allocate_part_eq[OF b]
    by (auto simp: shortage_line_def split: if_splits)
qed

lemma filter_concat_distinct:
  "distinct ps \<Longrightarrow> p \<in> set ps \<Longrightarrow> (\<And>q l. q \<in> set ps \<Longrightarrow> l \<in> set (f q) \<Longrightarrow> key l = q)
   \<Longrightarrow> filter (\<lambda>l. key l = p) (concat (map f ps)) = f p"
proof (induction ps)
  case Nil
  then show ?case by simp
next
  case (Cons a ps)
  show ?case
  proof (cases "a = p")
    case True
    have 1: "filter (\<lambda>l. key l = p) (f a) = f a"
      using Cons.prems(3)[of a] True by (auto simp: filter_id_conv)
    have "p \<notin> set ps" using Cons.prems(1) True by simp
    then have 2: "filter (\<lambda>l. key l = p) (concat (map f ps)) = []"
      using Cons.prems(3) by (auto simp: filter_empty_conv)
    show ?thesis using 1 2 True by simp
  next
    case False
    have 1: "filter (\<lambda>l. key l = p) (f a) = []"
      using Cons.prems(3)[of a] False by (auto simp: filter_empty_conv)
    have "filter (\<lambda>l. key l = p) (concat (map f ps)) = f p"
      using Cons False by auto
    then show ?thesis using 1 by simp
  qed
qed

lemma find_filter_Cons:
  "find P xs = Some x \<Longrightarrow> \<exists>ys. filter P xs = x # ys"
  by (induction xs) (auto split: if_splits)

lemma find_Some_set: "find P xs = Some x \<Longrightarrow> x \<in> set xs \<and> P x"
  by (induction xs) (auto split: if_splits)

lemma part_lines_final_allocation:
  assumes "find (\<lambda>r. o_PartNumber r = part) orders = Some ord"
  shows "part_lines part (final_allocation srt orders quotes sel)
         = allocate_part srt quotes sel part (o_QtyRequired ord)"
proof -
  let ?f = "\<lambda>part. case map o_QtyRequired (filter (\<lambda>r. o_PartNumber r = part) orders) of
          [] \<Rightarrow> []
        | qty_needed # _ \<Rightarrow> allocate_part srt quotes sel part qty_needed"
  have mem: "part \<in> set (unique (map o_PartNumber orders))"
    using find_Some_set[OF assms] by (force simp: set_unique)
  have key: "\<And>q l. l \<in> set (?f q) \<Longrightarrow> a_PartNumber l = q"
    by (auto split: list.splits dest: allocate_part_part)
  have "filter (\<lambda>l. a_PartNumber l = part) (concat (map ?f (unique (map o_PartNumber orders)))) = ?f part"
    by (rule filter_concat_distinct[OF distinct_unique mem]) (rule key)
  moreover have "?f part = allocate_part srt quotes sel part (o_QtyRequired ord)"
    using find_filter_Cons[OF assms] by auto
  ultimately show ?thesis by (simp add: part_lines_def final_allocation_def)
qed

lemma auto_loop_source:
  "l \<in> set (fst (auto_loop part q qs)) \<Longrightarrow> a_AllocationSource l = ''Auto-Optimized''"
  by (induction qs arbitrary: q) (auto simp: Let_def case_prod_unfold split: if_splits)

lemma remaining_loop_source:
  "l \<in> set (fst (remaining_loop part q qs)) \<Longrightarrow>
   a_AllocationSource l = ''Auto-Optimized (Remaining)''"
  by (induction qs arbitrary: q) (auto simp: Let_def case_prod_unfold split: if_splits)

lemma part_body_source:
  assumes "part_body srt quotes sel part q = (ls, r)" and "l \<in> set ls"
  shows "a_AllocationSource l \<noteq> ''Shortage''"
proof -
  have "l \<in> set (fst (part_body srt quotes sel part q))" using assms by simp
  then show ?thesis
    by (auto simp: part_body_def Let_def case_prod_unfold
        split: option.splits list.splits if_splits
        dest: auto_loop_source remaining_loop_source)
qed

lemma first_rows_map:
  "map (\<lambda>part. case map o_QtyRequired (filter (\<lambda>r. o_PartNumber r = part) orders) of
          [] \<Rightarrow> [] | qty_needed # _ \<Rightarrow> A part qty_needed) (unique (map o_PartNumber orders))
   = map (\<lambda>r. A (o_PartNumber r) (o_QtyRequired r)) (first_rows orders)"
proof (induction orders rule: first_rows.induct)
  case 1
  then show ?case by simp
next
  case (2 r rs)
  let ?rs' = "filter (\<lambda>r'. o_PartNumber r' \<noteq> o_PartNumber r) rs"
  let ?g = "\<lambda>os part. case map o_QtyRequired (filter (\<lambda>r. o_PartNumber r = part) os) of
          [] \<Rightarrow> [] | qty_needed # _ \<Rightarrow> A part qty_needed"
  have u: "filter (\<lambda>y. y \<noteq> o_PartNumber r) (map o_PartNumber rs) = map o_PartNumber ?rs'"
    by (simp add: filter_map comp_def)
  have c: "map (?g (r # rs)) (unique (map o_PartNumber ?rs')) = map (?g ?rs') (unique (map o_PartNumber ?rs'))"
  proof (rule map_cong[OF refl])
    fix p assume "p \<in> set (unique (map o_PartNumber ?rs'))"
    then have ne: "p \<noteq> o_PartNumber r" by (auto simp: set_unique)
    have "filter (\<lambda>x. o_PartNumber x = p) ?rs' = filter (\<lambda>x. o_PartNumber x = p) rs"
      using ne by (auto intro: filter_cong)
    then show "?g (r # rs) p = ?g ?rs' p" using ne by auto
  qed
  show ?case using 2 c u by simp
qed

lemma set_first_rows: "set (first_rows rs) \<subseteq> set rs"
  by (induction rs rule: first_rows.induct) auto

lemma distinct_first_rows: "distinct (map o_PartNumber (first_rows rs))"
proof (induction rs rule: first_rows.induct)
  case 1
  then show ?case by simp
next
  case (2 r rs)
  have "o_PartNumber r \<notin> o_PartNumber ` set (first_rows (filter (\<lambda>r'. o_PartNumber r' \<noteq> o_PartNumber r) rs))"
    using set_first_rows[of "filter (\<lambda>r'. o_PartNumber r' \<noteq> o_PartNumber r) rs"] by auto
  then show ?case using 2 by simp
qed

lemma first_rows_distinct: "distinct (map o_PartNumber rs) \<Longrightarrow> first_rows rs = rs"
proof (induction rs)
  case Nil
  then show ?case by simp
next
  case (Cons r rs)
  have "o_PartNumber r \<notin> o_PartNumber ` set rs" using Cons.prems by simp
  then have "\<forall>x\<in>set rs. o_PartNumber x \<noteq> o_PartNumber r" by (metis imageI)
  then have "filter (\<lambda>r'. o_PartNumber r' \<noteq> o_PartNumber r) rs = rs"
    by (simp add: filter_id_conv)
  then show ?case using Cons by simp
qed

lemma final_allocation_first_rows:
  "final_allocation srt orders quotes_df supplier_selections
   = concat (map (\<lambda>r. allocate_part srt quotes_df supplier_selections
                         (o_PartNumber r) (o_QtyRequired r)) (first_rows orders))"
  unfolding final_allocation_def
  by (simp only: first_rows_map[where A = "allocate_part srt quotes_df supplier_selections"])

lemma sorter_nil: "sorts_by_price srt \<Longrightarrow> srt [] = []"
  by (metis mset_zero_iff sorts_by_price_def)

lemma sorter_set: "sorts_by_price srt \<Longrightarrow> set (srt qs) = set qs"
  by (metis mset_eq_setD sorts_by_price_def)

lemma sorter_sorted: "sorts_by_price srt \<Longrightarrow> sorted (map q_UnitPrice (srt qs))"
  by (simp add: sorts_by_price_def)

lemma sorter_mset: "sorts_by_price srt \<Longrightarrow> mset (srt qs) = mset qs"
  by (simp add: sorts_by_price_def)

lemma engine_loop_part:
  "l \<in> set (fst (engine_loop part orig q qs)) \<Longrightarrow> e_PartNumber l = part"
  by (induction qs arbitrary: q) (auto simp: Let_def case_prod_unfold split: if_splits)

lemma optimize_order_part:
  "l \<in> set (optimize_order srt quotes_df r) \<Longrightarrow> e_PartNumber l = o_PartNumber r"
  by (auto simp: optimize_order_def Let_def case_prod_unfold split: if_splits
      dest: engine_loop_part)

lemma filter_concat_key:
  "(\<And>x l. x \<in> set xs \<Longrightarrow> l \<in> set (f x) \<Longrightarrow> key l = k x) \<Longrightarrow>
   filter (\<lambda>l. key l = p) (concat (map f xs))
   = concat (map f (filter (\<lambda>x. k x = p) xs))"
proof (induction xs)
  case Nil
  then show ?case by simp
next
  case (Cons a xs)
  have ih: "filter (\<lambda>l. key l = p) (concat (map f xs))
   = concat (map f (filter (\<lambda>x. k x = p) xs))"
    using Cons by simp
  have "filter (\<lambda>l. key l = p) (f a) = (if k a = p then f a else [])"
    using Cons.prems[of a] by (auto simp: filter_id_conv filter_empty_conv)
  then show ?case using ih by simp
qed

lemma opt_part_lines_optimized_allocation:
  "opt_part_lines part (optimized_allocation srt orders quotes_df)
   = concat (map (optimize_order srt quotes_df) (filter (\<lambda>r. o_PartNumber r = part) orders))"
  unfolding opt_part_lines_def optimized_allocation_def
  by (rule filter_concat_key) (rule optimize_order_part)

lemma sorts_by_price_insertion_sort: "sorts_by_price insertion_sort"
  by (simp add: sorts_by_price_def insertion_sort_def)

lemma sum_list_filter_mset:
  fixes f :: "'a \<Rightarrow> rat"
  shows "mset xs = mset ys \<Longrightarrow> sum_list (map f (filter P xs)) = sum_list (map f (filter P ys))"
proof -
  assume "mset xs = mset ys"
  then have "mset (filter P xs) = mset (filter P ys)"
    by (simp only: mset_filter)
  then have "mset (map f (filter P xs)) = mset (map f (filter P ys))"
    by (simp only: mset_map)
  then show ?thesis by (metis sum_mset_sum_list)
qed

lemma auto_loop_supplier_bound:
  assumes "\<forall>q\<in>set qs. 0 \<le> q_AvailableQty q"
  shows "sum_list (map a_QtyAllocated (filter (\<lambda>l. a_Supplier l = s) (fst (auto_loop part d qs))))
         \<le> sum_list (map q_AvailableQty (filter (\<lambda>q. q_Supplier q = s) qs))"
  using assms
proof (induction qs arbitrary: d)
  case Nil
  then show ?case by simp
next
  case (Cons q qs)
  have nn: "0 \<le> sum_list (map q_AvailableQty (filter (\<lambda>q. q_Supplier q = s) qs))"
    using Cons.prems by (intro sum_list_nonneg) auto
  have ih: "\<And>d. sum_list (map a_QtyAllocated (filter (\<lambda>l. a_Supplier l = s) (fst (auto_loop part d qs))))
         \<le> sum_list (map q_AvailableQty (filter (\<lambda>q. q_Supplier q = s) qs))"
    using Cons by simp
  have q0: "0 \<le> q_AvailableQty q" using Cons.prems by simp
  show ?case
    using ih[of "d - min d (q_AvailableQty q)"] ih[of d] nn q0
    by (auto simp: Let_def case_prod_unfold)
qed

lemma remaining_loop_supplier_bound:
  assumes "\<forall>q\<in>set qs. 0 \<le> q_AvailableQty q"
  shows "sum_list (map a_QtyAllocated (filter (\<lambda>l. a_Supplier l = s) (fst (remaining_loop part d qs))))
         \<le> sum_list (map q_AvailableQty (filter (\<lambda>q. q_Supplier q = s) qs))"
  using assms
proof (induction qs arbitrary: d)
  case Nil
  then show ?case by simp
next
  case (Cons q qs)
  have nn: "0 \<le> sum_list (map q_AvailableQty (filter (\<lambda>q. q_Supplier q = s) qs))"
    using Cons.prems by (intro sum_list_nonneg) auto
  have ih: "\<And>d. sum_list (map a_QtyAllocated (filter (\<lambda>l. a_Supplier l = s) (fst (remaining_loop part d qs))))
         \<le> sum_list (map q_AvailableQty (filter (\<lambda>q. q_Supplier q = s) qs))"
    using Cons by simp
  have q0: "0 \<le> q_AvailableQty q" using Cons.prems by simp
  show ?case
    using ih[of "d - min d (q_AvailableQty q)"] nn q0
    by (auto simp: Let_def case_prod_unfold)
qed

lemma sorted_filter_sum:
  assumes "sorts_by_price srt"
  shows "sum_list (map q_AvailableQty (filter (\<lambda>q. q_Supplier q = s) (srt (filter P quotes_df))))
         = sum_list (map q_AvailableQty (filter (\<lambda>q. P q \<and> q_Supplier q = s) quotes_df))"
proof -
  have "sum_list (map q_AvailableQty (filter (\<lambda>q. q_Supplier q = s) (srt (filter P quotes_df))))
        = sum_list (map q_AvailableQty (filter (\<lambda>q. q_Supplier q = s) (filter P quotes_df)))"
    by (rule sum_list_filter_mset[OF sorter_mset[OF assms]])
  also have "filter (\<lambda>q. q_Supplier q = s) (filter P quotes_df)
        = filter (\<lambda>q. P q \<and> q_Supplier q = s) quotes_df"
    by (simp add: conj_commute)
  finally show ?thesis .
qed

lemma sum_list_filter_le:
  fixes f :: "'a \<Rightarrow> rat"
  assumes "\<forall>x\<in>set xs. 0 \<le> f x" and "\<And>x. P x \<Longrightarrow> Q x"
  shows "sum_list (map f (filter P xs)) \<le> sum_list (map f (filter Q xs))"
  using assms(1)
proof (induction xs)
  case Nil
  then show ?case by simp
next
  case (Cons a xs)
  then show ?case using assms(2)[of a] by (auto intro: add_increasing)
qed

lemma part_body_supplier_bound:
  assumes srt: "sorts_by_price srt"
      and nn: "\<forall>q\<in>set quotes_df. 0 \<le> q_AvailableQty q"
      and b: "part_body srt quotes_df supplier_selections part d = (ls, r)"
  shows "sum_list (map a_QtyAllocated (filter (\<lambda>l. a_Supplier l = s) ls))
         \<le> quoted_qty part s quotes_df"
proof (cases "supplier_selections part")
  case None
  then have ls: "ls = fst (auto_loop part d (srt (filter (\<lambda>q. q_PartNumber q = part) quotes_df)))"
    using b by (simp add: part_body_def)
  have "\<forall>q\<in>set (srt (filter (\<lambda>q. q_PartNumber q = part) quotes_df)). 0 \<le> q_AvailableQty q"
    using nn by (simp add: sorter_set[OF srt])
  from auto_loop_supplier_bound[OF this, of s part d]
  show ?thesis
    unfolding ls quoted_qty_def sorted_filter_sum[OF srt] .
next
  case (Some sel)
  show ?thesis
  proof (cases "filter (\<lambda>q. q_PartNumber q = part \<and> q_Supplier q = sel) quotes_df")
    case Nil
    then have "ls = []" using b Some by (simp add: part_body_def)
    moreover have "0 \<le> quoted_qty part s quotes_df"
      unfolding quoted_qty_def using nn by (intro sum_list_nonneg) auto
    ultimately show ?thesis by simp
  next
    case (Cons offer rest)
    have offer_le: "q_AvailableQty offer \<le> quoted_qty part sel quotes_df"
    proof -
      have "\<forall>q\<in>set rest. 0 \<le> q_AvailableQty q"
        using nn Cons by (metis filter_is_subset list.set_intros(2) subsetD)
      then have "0 \<le> sum_list (map q_AvailableQty rest)"
        by (intro sum_list_nonneg) auto
      then show ?thesis unfolding quoted_qty_def Cons by simp
    qed
    have q0: "0 \<le> quoted_qty part s quotes_df"
      unfolding quoted_qty_def using nn by (intro sum_list_nonneg) auto
    show ?thesis
    proof (cases "d \<le> q_AvailableQty offer")
      case True
      then have "ls = [\<lparr>a_PartNumber = part, a_Supplier = sel,
                      a_QtyAllocated = d, a_UnitPrice = q_UnitPrice offer,
                      a_TotalCost = d * q_UnitPrice offer,
                      a_AllocationSource = ''Manual Selection''\<rparr>]"
        using b Some Cons by (simp add: part_body_def Let_def)
      then show ?thesis using True offer_le q0 by auto
    next
      case False
      let ?others = "filter (\<lambda>q. q_PartNumber q = part \<and> q_Supplier q \<noteq> sel
                                \<and> 0 < q_AvailableQty q) quotes_df"
      let ?ls' = "fst (remaining_loop part (d - q_AvailableQty offer) (srt ?others))"
      have ls: "ls = \<lparr>a_PartNumber = part, a_Supplier = sel,
                      a_QtyAllocated = q_AvailableQty offer, a_UnitPrice = q_UnitPrice offer,
                      a_TotalCost = q_AvailableQty offer * q_UnitPrice offer,
                      a_AllocationSource = ''Manual Selection (Partial)''\<rparr> # ?ls'"
        using b Some Cons False by (auto simp: part_body_def Let_def case_prod_unfold)
      have "\<forall>q\<in>set (srt ?others). 0 \<le> q_AvailableQty q"
        using nn by (simp add: sorter_set[OF srt])
      from remaining_loop_supplier_bound[OF this, of s part "d - q_AvailableQty offer"]
      have rest_le: "sum_list (map a_QtyAllocated (filter (\<lambda>l. a_Supplier l = s) ?ls'))
         \<le> sum_list (map q_AvailableQty (filter (\<lambda>q. (q_PartNumber q = part \<and> q_Supplier q \<noteq> sel
                                \<and> 0 < q_AvailableQty q) \<and> q_Supplier q = s) quotes_df))"
        unfolding sorted_filter_sum[OF srt] .
      show ?thesis
      proof (cases "s = sel")
        case True
        have "filter (\<lambda>q. (q_PartNumber q = part \<and> q_Supplier q \<noteq> sel
                                \<and> 0 < q_AvailableQty q) \<and> q_Supplier q = s) quotes_df = []"
          using True by (auto simp: filter_empty_conv)
        then show ?thesis using rest_le offer_le True ls by simp
      next
        case False
        have "sum_list (map q_AvailableQty (filter (\<lambda>q. (q_PartNumber q = part \<and> q_Supplier q \<noteq> sel
                                \<and> 0 < q_AvailableQty q) \<and> q_Supplier q = s) quotes_df))
              \<le> quoted_qty part s quotes_df"
          unfolding quoted_qty_def by (rule sum_list_filter_le[OF nn]) simp
        then show ?thesis using rest_le False ls by simp
      qed
    qed
  qed
qed

lemma part_body_pinned_bound:
  assumes srt: "sorts_by_price srt"
      and nn: "\<forall>q\<in>set quotes_df. 0 \<le> q_AvailableQty q"
      and sel: "supplier_selections part = Some s"
      and f: "find (\<lambda>q. q_PartNumber q = part \<and> q_Supplier q = s) quotes_df = Some offer"
      and b: "part_body srt quotes_df supplier_selections part d = (ls, r)"
  shows "sum_list (map a_QtyAllocated (filter (\<lambda>l. a_Supplier l = s) ls))
         \<le> q_AvailableQty offer"
proof -
  obtain rest where Cons:
    "filter (\<lambda>q. q_PartNumber q = part \<and> q_Supplier q = s) quotes_df = offer # rest"
    using find_filter_Cons[OF f] by blast
  show ?thesis
  proof (cases "d \<le> q_AvailableQty offer")
    case True
    then have "ls = [\<lparr>a_PartNumber = part, a_Supplier = s,
                    a_QtyAllocated = d, a_UnitPrice = q_UnitPrice offer,
                    a_TotalCost = d * q_UnitPrice offer,
                    a_AllocationSource = ''Manual Selection''\<rparr>]"
      using b sel Cons by (simp add: part_body_def Let_def)
    then show ?thesis using True by simp
  next
    case False
    let ?others = "filter (\<lambda>q. q_PartNumber q = part \<and> q_Supplier q \<noteq> s
                              \<and> 0 < q_AvailableQty q) quotes_df"
    let ?ls' = "fst (remaining_loop part (d - q_AvailableQty offer) (srt ?others))"
    have ls: "ls = \<lparr>a_PartNumber = part, a_Supplier = s,
                    a_QtyAllocated = q_AvailableQty offer, a_UnitPrice = q_UnitPrice offer,
                    a_TotalCost = q_AvailableQty offer * q_UnitPrice offer,
                    a_AllocationSource = ''Manual Selection (Partial)''\<rparr> # ?ls'"
      using b sel Cons False by (auto simp: part_body_def Let_def case_prod_unfold)
    have "\<forall>q\<in>set (srt ?others). 0 \<le> q_AvailableQty q"
      using nn by (simp add: sorter_set[OF srt])
    from remaining_loop_supplier_bound[OF this, of s part "d - q_AvailableQty offer"]
    have rest_le: "sum_list (map a_QtyAllocated (filter (\<lambda>l. a_Supplier l = s) ?ls'))
       \<le> sum_list (map q_AvailableQty (filter (\<lambda>q. (q_PartNumber q = part \<and> q_Supplier q \<noteq> s
                              \<and> 0 < q_AvailableQty q) \<and> q_Supplier q = s) quotes_df))"
      unfolding sorted_filter_sum[OF srt] .
    have "filter (\<lambda>q. (q_PartNumber q = part \<and> q_Supplier q \<noteq> s
                            \<and> 0 < q_AvailableQty q) \<and> q_Supplier q = s) quotes_df = []"
      by (auto simp: filter_empty_conv)
    then show ?thesis using rest_le ls by simp
  qed
qed

lemma supplier_qty_final_allocation:
  assumes "find (\<lambda>r. o_PartNumber r = part) orders = Some ord"
      and "s \<noteq> ''N/A (SHORTAGE)''"
      and "part_body srt quotes_df supplier_selections part (o_QtyRequired ord) = (ls, r)"
  shows "supplier_qty part s (final_allocation srt orders quotes_df supplier_selections)
         = sum_list (map a_QtyAllocated (filter (\<lambda>l. a_Supplier l = s) ls))"
proof -
  have "filter (\<lambda>l. a_PartNumber l = part \<and> a_Supplier l = s)
          (final_allocation srt orders quotes_df supplier_selections)
        = filter (\<lambda>l. a_Supplier l = s)
            (part_lines part (final_allocation srt orders quotes_df supplier_selections))"
    by (simp add: part_lines_def conj_commute)
  also have "\<dots> = filter (\<lambda>l. a_Supplier l = s) ls"
    using assms(2)
    by (simp add: part_lines_final_allocation[OF assms(1)] allocate_part_eq[OF assms(3)]
        shortage_line_def)
  finally show ?thesis by (simp add: supplier_qty_def total_qty_def)
qed

lemma remaining_loop_auto_loop:
  assumes "\<forall>q\<in>set qs. 0 < q_AvailableQty q"
  shows "remaining_loop part d qs
         = (map relabel_remaining (fst (auto_loop part d qs)), snd (auto_loop part d qs))"
  using assms
proof (induction qs arbitrary: d)
  case Nil
  then show ?case by simp
next
  case (Cons q qs)
  have ih: "\<And>d. remaining_loop part d qs
         = (map relabel_remaining (fst (auto_loop part d qs)), snd (auto_loop part d qs))"
    using Cons by simp
  have q0: "0 < q_AvailableQty q" using Cons.prems by simp
  show ?case
  proof (cases "d \<le> 0")
    case True
    then show ?thesis by simp
  next
    case False
    then have "0 < min d (q_AvailableQty q)" using q0 by simp
    then show ?thesis
      using False by (simp add: ih Let_def case_prod_unfold relabel_remaining_def)
  qed
qed

lemma auto_loop_prices:
  "l \<in> set (fst (auto_loop part d qs)) \<Longrightarrow> a_UnitPrice l \<in> q_UnitPrice ` set qs"
  by (induction qs arbitrary: d) (auto simp: Let_def case_prod_unfold split: if_splits)

lemma auto_loop_sorted:
  "sorted (map q_UnitPrice qs) \<Longrightarrow> sorted (map a_UnitPrice (fst (auto_loop part d qs)))"
proof (induction qs arbitrary: d)
  case Nil
  then show ?case by simp
next
  case (Cons q qs)
  have s: "sorted (map q_UnitPrice qs)" and le: "\<forall>p\<in>q_UnitPrice ` set qs. q_UnitPrice q \<le> p"
    using Cons.prems by auto
  have "\<forall>l\<in>set (fst (auto_loop part (d - min d (q_AvailableQty q)) qs)). q_UnitPrice q \<le> a_UnitPrice l"
    using auto_loop_prices le by blast
  then show ?case using Cons.IH[OF s] by (simp add: Let_def case_prod_unfold)
qed

lemma auto_loop_suppliers:
  "l \<in> set (fst (auto_loop part d qs)) \<Longrightarrow> a_Supplier l \<in> q_Supplier ` set qs"
  by (induction qs arbitrary: d) (auto simp: Let_def case_prod_unfold split: if_splits)

lemma total_qty_simps:
  "total_qty [] = 0" "total_qty (l # ls) = a_QtyAllocated l + total_qty ls"
  "total_qty (ls @ ms) = total_qty ls + total_qty ms"
  by (simp_all add: total_qty_def)

lemma total_cost_simps:
  "total_cost [] = 0"
  "total_cost (l # ls) = a_QtyAllocated l * a_UnitPrice l + total_cost ls"
  "total_cost (ls @ ms) = total_cost ls + total_cost ms"
  by (simp_all add: total_cost_def)

lemma assignment_simps:
  "assigned_qty [] = 0" "assigned_qty ((q, x) # alt) = x + assigned_qty alt"
  "assignment_cost [] = 0"
  "assignment_cost ((q, x) # alt) = x * q_UnitPrice q + assignment_cost alt"
  "feasible [] = True"
  "feasible ((q, x) # alt) = (0 \<le> x \<and> x \<le> q_AvailableQty q \<and> feasible alt)"
  by (simp_all add: assigned_qty_def assignment_cost_def feasible_def)

lemma assigned_qty_nonneg: "feasible alt \<Longrightarrow> 0 \<le> assigned_qty alt"
  by (induction alt) (auto simp: assignment_simps)

lemma lam_bound:
  "sorted (lam # map (\<lambda>a. q_UnitPrice (fst a)) alt) \<Longrightarrow> feasible alt \<Longrightarrow>
   lam * assigned_qty alt \<le> assignment_cost alt"
proof (induction alt)
  case Nil
  then show ?case by (simp add: assignment_simps)
next
  case (Cons a alt)
  obtain q x where a: "a = (q, x)" by (cases a)
  have lp: "lam \<le> q_UnitPrice q" and x0: "0 \<le> x" and feas: "feasible alt"
    and s: "sorted (lam # map (\<lambda>a. q_UnitPrice (fst a)) alt)"
    using Cons.prems a by (auto simp: assignment_simps)
  have "lam * x \<le> q_UnitPrice q * x" using lp x0 by (rule mult_right_mono)
  moreover have "lam * assigned_qty alt \<le> assignment_cost alt" using Cons.IH[OF s feas] .
  ultimately show ?case by (simp add: a assignment_simps algebra_simps)
qed

lemma auto_loop_zero: "d \<le> 0 \<Longrightarrow> auto_loop part d qs = ([], d)"
  by (cases qs) simp_all

lemma greedy_opt:
  "sorted (lam # map (\<lambda>a. q_UnitPrice (fst a)) alt) \<Longrightarrow> feasible alt \<Longrightarrow>
   total_qty (fst (auto_loop part d (map fst alt))) \<le> assigned_qty alt \<Longrightarrow>
   total_cost (fst (auto_loop part d (map fst alt)))
     + lam * (assigned_qty alt - total_qty (fst (auto_loop part d (map fst alt))))
   \<le> assignment_cost alt"
proof (induction alt arbitrary: d lam)
  case Nil
  then show ?case by (simp add: assignment_simps total_qty_simps total_cost_simps)
next
  case (Cons a alt)
  obtain q x where a: "a = (q, x)" by (cases a)
  let ?p = "q_UnitPrice q"
  let ?c = "q_AvailableQty q"
  have lp: "lam \<le> ?p" and x0: "0 \<le> x" and xc: "x \<le> ?c" and feas: "feasible alt"
    and sl: "sorted (lam # map (\<lambda>a. q_UnitPrice (fst a)) alt)"
    and sp: "sorted (?p # map (\<lambda>a. q_UnitPrice (fst a)) alt)"
    using Cons.prems a by (auto simp: assignment_simps)
  have S0: "0 \<le> assigned_qty alt" by (rule assigned_qty_nonneg[OF feas])
  show ?case
  proof (cases "d \<le> 0")
    case True
    have "lam * assigned_qty (a # alt) \<le> assignment_cost (a # alt)"
      by (rule lam_bound[OF Cons.prems(1,2)])
    then show ?thesis
      using True by (simp add: a auto_loop_zero total_qty_simps total_cost_simps)
  next
    case False
    let ?a = "min d ?c"
    show ?thesis
    proof (cases "0 < ?a")
      case True
      let ?ls = "fst (auto_loop part (d - ?a) (map fst alt))"
      have fst_eq: "fst (auto_loop part d (map fst (a # alt)))
          = \<lparr>a_PartNumber = part, a_Supplier = q_Supplier q,
             a_QtyAllocated = ?a, a_UnitPrice = ?p,
             a_TotalCost = ?a * ?p, a_AllocationSource = ''Auto-Optimized''\<rparr> # ?ls"
        using False True by (simp add: a Let_def case_prod_unfold)
      have prem: "?a + total_qty ?ls \<le> x + assigned_qty alt"
        using Cons.prems(3) unfolding fst_eq by (simp add: a total_qty_simps assignment_simps)
      have T_le: "total_qty ?ls \<le> assigned_qty alt"
      proof (cases "x \<le> ?a")
        case True
        then show ?thesis using prem by linarith
      next
        case False
        then have "?a = d" using xc by (simp add: min_def split: if_splits)
        then have "?ls = []" by (simp add: auto_loop_zero)
        then show ?thesis using S0 by (simp add: total_qty_simps)
      qed
      have ih: "total_cost ?ls + ?p * (assigned_qty alt - total_qty ?ls) \<le> assignment_cost alt"
        by (rule Cons.IH[OF sp feas T_le])
      let ?z = "x + assigned_qty alt - ?a - total_qty ?ls"
      have z0: "0 \<le> ?z" using prem by simp
      have lz: "lam * ?z \<le> ?p * ?z" using lp z0 by (rule mult_right_mono)
      have "total_cost (fst (auto_loop part d (map fst (a # alt))))
            + lam * (assigned_qty (a # alt) - total_qty (fst (auto_loop part d (map fst (a # alt)))))
            = ?a * ?p + total_cost ?ls + lam * ?z"
        unfolding fst_eq by (simp add: a total_qty_simps total_cost_simps assignment_simps algebra_simps)
      also have "\<dots> \<le> ?a * ?p + total_cost ?ls + ?p * ?z" using lz by simp
      also have "\<dots> = x * ?p + (total_cost ?ls + ?p * (assigned_qty alt - total_qty ?ls))"
        by (simp add: algebra_simps)
      also have "\<dots> \<le> x * ?p + assignment_cost alt" using ih by simp
      finally show ?thesis by (simp add: a assignment_simps)
    next
      case nopos: False
      have c0: "?c \<le> 0" using nopos False by (simp add: min_def split: if_splits)
      then have x_eq: "x = 0" using x0 xc by simp
      have fst_eq: "fst (auto_loop part d (map fst (a # alt))) = fst (auto_loop part d (map fst alt))"
        using False nopos by (simp add: a Let_def)
      have prem: "total_qty (fst (auto_loop part d (map fst alt))) \<le> assigned_qty alt"
        using Cons.prems(3) unfolding fst_eq by (simp add: a x_eq assignment_simps)
      from Cons.IH[OF sl feas prem] show ?thesis
        unfolding fst_eq by (simp add: a x_eq assignment_simps)
    qed
  qed
qed

lemma mset_map_remove1:
  "x \<in> set xs \<Longrightarrow> add_mset (f x) (mset (map f (remove1 x xs))) = mset (map f xs)"
  by (induction xs) auto

lemma perm_align:
  "mset (map f xs) = mset ys \<Longrightarrow> \<exists>xs'. mset xs' = mset xs \<and> map f xs' = ys"
proof (induction ys arbitrary: xs)
  case Nil
  then show ?case by simp
next
  case (Cons y ys)
  have "y \<in> set (map f xs)"
    using Cons.prems by (metis list.set_intros(1) mset_eq_setD)
  then have "y \<in> f ` set xs" by (simp only: set_map)
  then obtain x where x: "x \<in> set xs" "f x = y" by (elim imageE) simp
  have "add_mset y (mset (map f (remove1 x xs))) = mset (map f xs)"
    using mset_map_remove1[OF x(1), of f] x(2) by (simp only:)
  also have "\<dots> = add_mset y (mset ys)"
    using Cons.prems by (simp only: mset.simps)
  finally have "mset (map f (remove1 x xs)) = mset ys"
    by (simp only: add_mset_add_mset_same_iff)
  from Cons.IH[OF this]
  obtain xs' where xs': "mset xs' = mset (remove1 x xs)" "map f xs' = ys"
    by (elim exE conjE)
  have "mset (x # xs') = mset xs" using xs'(1) x(1) by simp
  moreover have "map f (x # xs') = y # ys" using xs'(2) x(2) by simp
  ultimately show ?case by (intro exI conjI)
qed

lemma assignment_mset:
  assumes "mset alt' = mset alt"
  shows "assigned_qty alt' = assigned_qty alt"
    and "assignment_cost alt' = assignment_cost alt"
    and "feasible alt' = feasible alt"
proof -
  have "mset (map snd alt') = mset (map snd alt)" using assms by simp
  then have "sum_mset (mset (map snd alt')) = sum_mset (mset (map snd alt))"
    by (simp only:)
  then show "assigned_qty alt' = assigned_qty alt"
    unfolding assigned_qty_def by (simp only: sum_mset_sum_list)
  have "mset (map (\<lambda>(q, x). x * q_UnitPrice q) alt') = mset (map (\<lambda>(q, x). x * q_UnitPrice q) alt)"
    using assms by simp
  then have "sum_mset (mset (map (\<lambda>(q, x). x * q_UnitPrice q) alt'))
             = sum_mset (mset (map (\<lambda>(q, x). x * q_UnitPrice q) alt))"
    by (simp only:)
  then show "assignment_cost alt' = assignment_cost alt"
    unfolding assignment_cost_def by (simp only: sum_mset_sum_list)
  have "set alt' = set alt" using assms by (rule mset_eq_setD)
  then show "feasible alt' = feasible alt"
    by (simp add: feasible_def list_all_iff)
qed

text \<open>
  The definitions in exact arithmetic are the definitions in machine arithmetic at the
  arithmetic that does not round.
\<close>

lemma exact_arith_ops:
  "ar_sub exact_arith a b = a - b" "ar_mul exact_arith a b = a * b"
  by (simp_all add: exact_arith_def)

lemma auto_loop_m_exact: "auto_loop_m exact_arith part d qs = auto_loop part d qs"
  by (induction qs arbitrary: d) (simp_all add: exact_arith_ops Let_def)

lemma remaining_loop_m_exact: "remaining_loop_m exact_arith part d qs = remaining_loop part d qs"
  by (induction qs arbitrary: d) (simp_all add: exact_arith_ops Let_def)

lemma part_body_m_exact:
  "part_body_m exact_arith srt quotes_df supplier_selections part d
   = part_body srt quotes_df supplier_selections part d"
  by (simp add: part_body_m_def part_body_def auto_loop_m_exact remaining_loop_m_exact
      exact_arith_ops Let_def split: option.splits list.splits)

lemma final_allocation_m_exact:
  "final_allocation_m exact_arith srt orders quotes_df supplier_selections
   = final_allocation srt orders quotes_df supplier_selections"
  by (simp add: final_allocation_m_def final_allocation_def allocate_part_m_def
      allocate_part_def part_body_m_exact cong: list.case_cong)



















subsection \<open>The claims\<close>

text \<open>
  Claim C1, as the code has it. A part pinned to a supplier that has no offer for it is
  not allocated automatically: the branch of the pin is taken, it finds no row and
  appends nothing, and the whole required quantity (positive, as the cleaned order table
  guarantees) becomes the part's only line, a Shortage line. No offer of the part is
  consumed.
\<close>

theorem pin_without_offer:
  assumes "find (\<lambda>r. o_PartNumber r = part) orders = Some ord"
      and "0 < o_QtyRequired ord"
      and "supplier_selections part = Some s"
      and "find (\<lambda>q. q_PartNumber q = part \<and> q_Supplier q = s) quotes_df = None"
  shows "part_lines part (final_allocation srt orders quotes_df supplier_selections)
         = [\<lparr>a_PartNumber = part, a_Supplier = ''N/A (SHORTAGE)'',
             a_QtyAllocated = o_QtyRequired ord, a_UnitPrice = 0, a_TotalCost = 0,
             a_AllocationSource = ''Shortage''\<rparr>]"
proof -
  have f: "filter (\<lambda>q. q_PartNumber q = part \<and> q_Supplier q = s) quotes_df = []"
    using assms(4) by (auto simp: find_None_iff filter_empty_conv)
  have "part_body srt quotes_df supplier_selections part (o_QtyRequired ord)
        = ([], o_QtyRequired ord)"
    using assms(3) f by (simp add: part_body_def)
  from allocate_part_eq[OF this] show ?thesis
    using part_lines_final_allocation[OF assms(1)] assms(2) by (simp add: shortage_line_def)
qed

theorem pin_without_offer_witness:
  "find (\<lambda>r. o_PartNumber r = ''P6'') ex_orders
     = Some \<lparr>o_PartNumber = ''P6'', o_QtyRequired = 5\<rparr>
   \<and> ex_selections ''P6'' = Some ''SupplierX''
   \<and> find (\<lambda>q. q_PartNumber q = ''P6'' \<and> q_Supplier q = ''SupplierX'') ex_quotes = None
   \<and> part_lines ''P6'' (final_allocation insertion_sort ex_orders ex_quotes ex_selections)
     = [\<lparr>a_PartNumber = ''P6'', a_Supplier = ''N/A (SHORTAGE)'', a_QtyAllocated = 5,
         a_UnitPrice = 0, a_TotalCost = 0, a_AllocationSource = ''Shortage''\<rparr>]"
proof -
  have h1: "find (\<lambda>r. o_PartNumber r = ''P6'') ex_orders
     = Some \<lparr>o_PartNumber = ''P6'', o_QtyRequired = 5\<rparr>"
    by (simp add: ex_orders_def)
  have h2: "0 < o_QtyRequired \<lparr>o_PartNumber = ''P6'', o_QtyRequired = 5\<rparr>"
    by simp
  have h3: "ex_selections ''P6'' = Some ''SupplierX''"
    by (simp add: ex_selections_def)
  have h4: "find (\<lambda>q. q_PartNumber q = ''P6'' \<and> q_Supplier q = ''SupplierX'') ex_quotes = None"
    by (simp add: ex_quotes_def)
  show ?thesis
    using h1 h3 h4 pin_without_offer[where supplier_selections = ex_selections and srt = insertion_sort,
        OF h1 h2 h3 h4]
    by simp
qed

text \<open>
  Claim C1 as the specification states it fails in the sample session: \<open>P6\<close> is
  pinned to \<open>SupplierX\<close>, which has no offer for it; the allocation is one Shortage line,
  while without the pin it is five units from \<open>SupplierA\<close>.
\<close>

theorem pin_without_offer_counterexample:
  "ex_selections ''P6'' = Some ''SupplierX''
   \<and> find (\<lambda>q. q_PartNumber q = ''P6'' \<and> q_Supplier q = ''SupplierX'') ex_quotes = None
   \<and> part_lines ''P6'' (final_allocation insertion_sort ex_orders ex_quotes ex_selections)
     = [\<lparr>a_PartNumber = ''P6'', a_Supplier = ''N/A (SHORTAGE)'', a_QtyAllocated = 5,
         a_UnitPrice = 0, a_TotalCost = 0, a_AllocationSource = ''Shortage''\<rparr>]
   \<and> part_lines ''P6'' (final_allocation insertion_sort ex_orders ex_quotes
                           (ex_selections(''P6'' := None)))
     = [\<lparr>a_PartNumber = ''P6'', a_Supplier = ''SupplierA'', a_QtyAllocated = 5,
         a_UnitPrice = 2, a_TotalCost = 10, a_AllocationSource = ''Auto-Optimized''\<rparr>]
   \<and> part_lines ''P6'' (final_allocation insertion_sort ex_orders ex_quotes ex_selections)
     \<noteq> part_lines ''P6'' (final_allocation insertion_sort ex_orders ex_quotes
                           (ex_selections(''P6'' := None)))"
  by (simp add: part_lines_def final_allocation_def allocate_part_def part_body_def
      shortage_line_def ex_orders_def ex_quotes_def ex_selections_def insertion_sort_def)

text \<open>
  Claim C2, as the code has it. For an ordered part (of positive quantity) with no
  matching quote row, pinned or not, the final allocation has exactly one line for the
  part, and it is a Shortage line: supplier \<open>N/A (SHORTAGE)\<close>, the whole required
  quantity, unit price 0. The line with supplier \<open>NOT AVAILABLE\<close>, quantity 0 and
  status Not Available is what the automated optimization run appends, once for each
  order row of the part.
\<close>

theorem no_offer_closure:
  assumes "sorts_by_price srt"
      and "find (\<lambda>r. o_PartNumber r = part) orders = Some ord"
      and "0 < o_QtyRequired ord"
      and "filter (\<lambda>q. q_PartNumber q = part) quotes_df = []"
  shows "part_lines part (final_allocation srt orders quotes_df supplier_selections)
         = [\<lparr>a_PartNumber = part, a_Supplier = ''N/A (SHORTAGE)'',
             a_QtyAllocated = o_QtyRequired ord, a_UnitPrice = 0, a_TotalCost = 0,
             a_AllocationSource = ''Shortage''\<rparr>]
       \<and> opt_part_lines part (optimized_allocation srt orders quotes_df)
         = map (\<lambda>r. \<lparr>e_PartNumber = part, e_Supplier = ''NOT AVAILABLE'', e_AllocatedQty = 0,
                      e_UnitPrice = 0, e_Total = 0, e_QtyRequired = o_QtyRequired r,
                      e_Status = ''Not Available''\<rparr>)
             (filter (\<lambda>r. o_PartNumber r = part) orders)"
proof
  have none: "\<And>s. filter (\<lambda>q. q_PartNumber q = part \<and> q_Supplier q = s) quotes_df = []"
    using assms(4) by (auto simp: filter_empty_conv)
  have "part_body srt quotes_df supplier_selections part (o_QtyRequired ord)
        = ([], o_QtyRequired ord)"
    using assms(4) none sorter_nil[OF assms(1)]
    by (simp add: part_body_def split: option.splits)
  from allocate_part_eq[OF this]
  show "part_lines part (final_allocation srt orders quotes_df supplier_selections)
         = [\<lparr>a_PartNumber = part, a_Supplier = ''N/A (SHORTAGE)'',
             a_QtyAllocated = o_QtyRequired ord, a_UnitPrice = 0, a_TotalCost = 0,
             a_AllocationSource = ''Shortage''\<rparr>]"
    using part_lines_final_allocation[OF assms(2)] assms(3) by (simp add: shortage_line_def)
next
  have "\<And>r. o_PartNumber r = part \<Longrightarrow> optimize_order srt quotes_df r
        = [\<lparr>e_PartNumber = part, e_Supplier = ''NOT AVAILABLE'', e_AllocatedQty = 0,
                      e_UnitPrice = 0, e_Total = 0, e_QtyRequired = o_QtyRequired r,
                      e_Status = ''Not Available''\<rparr>]"
    using assms(4) by (simp add: optimize_order_def)
  then have "map (optimize_order srt quotes_df) (filter (\<lambda>r. o_PartNumber r = part) orders)
        = map (\<lambda>r. [\<lparr>e_PartNumber = part, e_Supplier = ''NOT AVAILABLE'', e_AllocatedQty = 0,
                      e_UnitPrice = 0, e_Total = 0, e_QtyRequired = o_QtyRequired r,
                      e_Status = ''Not Available''\<rparr>]) (filter (\<lambda>r. o_PartNumber r = part) orders)"
    by (intro map_cong) auto
  then show "opt_part_lines part (optimized_allocation srt orders quotes_df)
         = map (\<lambda>r. \<lparr>e_PartNumber = part, e_Supplier = ''NOT AVAILABLE'', e_AllocatedQty = 0,
                      e_UnitPrice = 0, e_Total = 0, e_QtyRequired = o_QtyRequired r,
                      e_Status = ''Not Available''\<rparr>)
             (filter (\<lambda>r. o_PartNumber r = part) orders)"
    unfolding opt_part_lines_optimized_allocation
    by (simp only: concat_map_singleton)
qed

theorem no_offer_closure_witness:
  "sorts_by_price insertion_sort
   \<and> find (\<lambda>r. o_PartNumber r = ''P5'') ex_orders
     = Some \<lparr>o_PartNumber = ''P5'', o_QtyRequired = 5\<rparr>
   \<and> filter (\<lambda>q. q_PartNumber q = ''P5'') ex_quotes = []
   \<and> part_lines ''P5'' (final_allocation insertion_sort ex_orders ex_quotes ex_selections)
     = [\<lparr>a_PartNumber = ''P5'', a_Supplier = ''N/A (SHORTAGE)'', a_QtyAllocated = 5,
         a_UnitPrice = 0, a_TotalCost = 0, a_AllocationSource = ''Shortage''\<rparr>]
   \<and> opt_part_lines ''P5'' (optimized_allocation insertion_sort ex_orders ex_quotes)
     = [\<lparr>e_PartNumber = ''P5'', e_Supplier = ''NOT AVAILABLE'', e_AllocatedQty = 0,
         e_UnitPrice = 0, e_Total = 0, e_QtyRequired = 5, e_Status = ''Not Available''\<rparr>]"
proof -
  have h1: "sorts_by_price insertion_sort"
    by (rule sorts_by_price_insertion_sort)
  have h2: "find (\<lambda>r. o_PartNumber r = ''P5'') ex_orders
     = Some \<lparr>o_PartNumber = ''P5'', o_QtyRequired = 5\<rparr>"
    by (simp add: ex_orders_def)
  have h3: "0 < o_QtyRequired \<lparr>o_PartNumber = ''P5'', o_QtyRequired = 5\<rparr>"
    by simp
  have h4: "filter (\<lambda>q. q_PartNumber q = ''P5'') ex_quotes = []"
    by (simp add: ex_quotes_def)
  have rows: "filter (\<lambda>r. o_PartNumber r = ''P5'') ex_orders
     = [\<lparr>o_PartNumber = ''P5'', o_QtyRequired = 5\<rparr>]"
    by (simp add: ex_orders_def)
  show ?thesis
    using h1 h2 h4 no_offer_closure[OF h1 h2 h3 h4, of ex_selections]
    by (simp add: rows)
qed

text \<open>
  Claim C2 as the specification states it fails in the sample session: \<open>P5\<close> has no
  quote, and its one line in the final allocation is not a \<open>NOT AVAILABLE\<close> line of
  quantity 0 but a Shortage line of quantity 5.
\<close>

theorem no_offer_closure_counterexample:
  "filter (\<lambda>q. q_PartNumber q = ''P5'') ex_quotes = []
   \<and> part_lines ''P5'' (final_allocation insertion_sort ex_orders ex_quotes ex_selections)
     = [\<lparr>a_PartNumber = ''P5'', a_Supplier = ''N/A (SHORTAGE)'', a_QtyAllocated = 5,
         a_UnitPrice = 0, a_TotalCost = 0, a_AllocationSource = ''Shortage''\<rparr>]
   \<and> a_Supplier (hd (part_lines ''P5''
         (final_allocation insertion_sort ex_orders ex_quotes ex_selections))) \<noteq> ''NOT AVAILABLE''
   \<and> a_QtyAllocated (hd (part_lines ''P5''
         (final_allocation insertion_sort ex_orders ex_quotes ex_selections))) \<noteq> 0
   \<and> a_AllocationSource (hd (part_lines ''P5''
         (final_allocation insertion_sort ex_orders ex_quotes ex_selections))) \<noteq> ''Not Available''"
  by (simp add: part_lines_def final_allocation_def allocate_part_def part_body_def
      shortage_line_def ex_orders_def ex_quotes_def ex_selections_def insertion_sort_def)




text \<open>
  Claim C4. For an ordered part without a pin, take any assignment that gives each of
  the part's offer rows one quantity between 0 and the row's available quantity, and
  that assigns in total what the final allocation supplies for the part. Its cost is
  at least the cost of the part's lines in the final allocation (quantity times unit
  price, summed over the lines; the Shortage line has unit price 0). The assignment
  lists the rows in any order.
\<close>

theorem cost_minimality:
  assumes "sorts_by_price srt"
      and "find (\<lambda>r. o_PartNumber r = part) orders = Some ord"
      and "supplier_selections part = None"
      and "mset (map fst alt) = mset (filter (\<lambda>q. q_PartNumber q = part) quotes_df)"
      and "feasible alt"
      and "assigned_qty alt
           = total_qty (supplied_lines (part_lines part
               (final_allocation srt orders quotes_df supplier_selections)))"
  shows "total_cost (part_lines part (final_allocation srt orders quotes_df supplier_selections))
         \<le> assignment_cost alt"
proof -
  let ?offers = "filter (\<lambda>q. q_PartNumber q = part) quotes_df"
  let ?d = "o_QtyRequired ord"
  let ?ls = "fst (auto_loop part ?d (srt ?offers))"
  let ?r = "snd (auto_loop part ?d (srt ?offers))"
  have b: "part_body srt quotes_df supplier_selections part ?d = (?ls, ?r)"
    using assms(3) by (simp add: part_body_def)
  have pl: "part_lines part (final_allocation srt orders quotes_df supplier_selections)
            = ?ls @ (if ?r > 0 then [shortage_line part ?r] else [])"
    using part_lines_final_allocation[OF assms(2)] allocate_part_eq[OF b] by simp
  have src: "filter (\<lambda>l. a_AllocationSource l \<noteq> ''Shortage'') ?ls = ?ls"
    using part_body_source[OF b] by (auto simp: filter_id_conv)
  have sup: "supplied_lines (part_lines part
               (final_allocation srt orders quotes_df supplier_selections)) = ?ls"
    unfolding pl supplied_lines_def using src by (simp add: shortage_line_def)
  have cost: "total_cost (part_lines part
               (final_allocation srt orders quotes_df supplier_selections)) = total_cost ?ls"
    unfolding pl by (simp add: total_cost_simps shortage_line_def)
  have "mset (map fst alt) = mset (srt ?offers)"
    using assms(4) sorter_mset[OF assms(1)] by simp
  from perm_align[OF this]
  obtain alt' where alt': "mset alt' = mset alt" "map fst alt' = srt ?offers"
    by (elim exE conjE)
  have "map (\<lambda>a. q_UnitPrice (fst a)) alt' = map q_UnitPrice (map fst alt')"
    by (simp add: comp_def)
  then have prices: "map (\<lambda>a. q_UnitPrice (fst a)) alt' = map q_UnitPrice (srt ?offers)"
    by (simp only: alt'(2))
  have sorted_prices: "sorted (map (\<lambda>a. q_UnitPrice (fst a)) alt')"
    unfolding prices by (rule sorter_sorted[OF assms(1)])
  obtain lam where lam: "sorted (lam # map (\<lambda>a. q_UnitPrice (fst a)) alt')"
  proof (cases alt')
    case Nil
    then have "sorted (0 # map (\<lambda>a. q_UnitPrice (fst a)) alt')" by simp
    then show ?thesis by (rule that)
  next
    case (Cons a rest)
    then have "sorted (q_UnitPrice (fst a) # map (\<lambda>a. q_UnitPrice (fst a)) alt')"
      using sorted_prices by auto
    then show ?thesis by (rule that)
  qed
  have feas: "feasible alt'" using assignment_mset(3)[OF alt'(1)] assms(5) by simp
  have qty: "assigned_qty alt' = total_qty ?ls"
    using assignment_mset(1)[OF alt'(1)] assms(6) sup by simp
  have "total_qty (fst (auto_loop part ?d (map fst alt'))) \<le> assigned_qty alt'"
    using qty alt'(2) by simp
  from greedy_opt[OF lam feas this]
  have "total_cost ?ls \<le> assignment_cost alt'"
    using qty alt'(2) by simp
  then show ?thesis
    using cost assignment_mset(2)[OF alt'(1)] by simp
qed

theorem cost_minimality_witness:
  "sorts_by_price insertion_sort
   \<and> find (\<lambda>r. o_PartNumber r = ''P1'') ex_orders
     = Some \<lparr>o_PartNumber = ''P1'', o_QtyRequired = 10\<rparr>
   \<and> ex_selections ''P1'' = None
   \<and> mset (map fst ex_assignment) = mset (filter (\<lambda>q. q_PartNumber q = ''P1'') ex_quotes)
   \<and> feasible ex_assignment
   \<and> assigned_qty ex_assignment = 10
   \<and> total_qty (supplied_lines (part_lines ''P1''
        (final_allocation insertion_sort ex_orders ex_quotes ex_selections))) = 10
   \<and> assignment_cost ex_assignment = 46
   \<and> total_cost (part_lines ''P1''
        (final_allocation insertion_sort ex_orders ex_quotes ex_selections)) \<le> 46"
proof -
  have h1: "sorts_by_price insertion_sort"
    by (rule sorts_by_price_insertion_sort)
  have h2: "find (\<lambda>r. o_PartNumber r = ''P1'') ex_orders
     = Some \<lparr>o_PartNumber = ''P1'', o_QtyRequired = 10\<rparr>"
    by (simp add: ex_orders_def)
  have h3: "ex_selections ''P1'' = None"
    by (simp add: ex_selections_def)
  have h4: "mset (map fst ex_assignment) = mset (filter (\<lambda>q. q_PartNumber q = ''P1'') ex_quotes)"
    by (simp add: ex_assignment_def ex_quotes_def)
  have h5: "feasible ex_assignment"
    by (simp add: ex_assignment_def feasible_def)
  have q: "assigned_qty ex_assignment = 10"
    by (simp add: ex_assignment_def assigned_qty_def)
  have g: "total_qty (supplied_lines (part_lines ''P1''
        (final_allocation insertion_sort ex_orders ex_quotes ex_selections))) = 10"
    by (simp add: total_qty_def supplied_lines_def part_lines_def final_allocation_def
        allocate_part_def part_body_def shortage_line_def ex_orders_def ex_quotes_def
        ex_selections_def insertion_sort_def)
  have h6: "assigned_qty ex_assignment = total_qty (supplied_lines (part_lines ''P1''
        (final_allocation insertion_sort ex_orders ex_quotes ex_selections)))"
    using q g by simp
  have c: "assignment_cost ex_assignment = 46"
    by (simp add: ex_assignment_def assignment_cost_def)
  show ?thesis
    using h1 h2 h3 h4 h5 q g c
      cost_minimality[where supplier_selections = ex_selections, OF h1 h2 h3 h4 h5 h6]
    by simp
qed

text \<open>
  Claim C5. If a part is pinned to a supplier whose first offer for the part covers the
  required quantity, the part's allocation is the single line that gives the whole
  quantity to that supplier at that offer's price, with source Manual Selection. Other
  offers, cheaper or not, play no role.
\<close>

theorem pin_precedence:
  assumes "find (\<lambda>r. o_PartNumber r = part) orders = Some ord"
      and "supplier_selections part = Some s"
      and "find (\<lambda>q. q_PartNumber q = part \<and> q_Supplier q = s) quotes_df = Some offer"
      and "o_QtyRequired ord \<le> q_AvailableQty offer"
  shows "part_lines part (final_allocation srt orders quotes_df supplier_selections)
         = [\<lparr>a_PartNumber = part, a_Supplier = s,
             a_QtyAllocated = o_QtyRequired ord, a_UnitPrice = q_UnitPrice offer,
             a_TotalCost = o_QtyRequired ord * q_UnitPrice offer,
             a_AllocationSource = ''Manual Selection''\<rparr>]"
proof -
  obtain rest where f: "filter (\<lambda>q. q_PartNumber q = part \<and> q_Supplier q = s) quotes_df = offer # rest"
    using find_filter_Cons[OF assms(3)] by blast
  have "part_body srt quotes_df supplier_selections part (o_QtyRequired ord)
        = ([\<lparr>a_PartNumber = part, a_Supplier = s,
             a_QtyAllocated = o_QtyRequired ord, a_UnitPrice = q_UnitPrice offer,
             a_TotalCost = o_QtyRequired ord * q_UnitPrice offer,
             a_AllocationSource = ''Manual Selection''\<rparr>], 0)"
    using assms(2,4) f by (simp add: part_body_def Let_def)
  from allocate_part_eq[OF this] show ?thesis
    using part_lines_final_allocation[OF assms(1)] by simp
qed

theorem pin_precedence_witness:
  "find (\<lambda>r. o_PartNumber r = ''P4'') ex_orders
     = Some \<lparr>o_PartNumber = ''P4'', o_QtyRequired = 5\<rparr>
   \<and> ex_selections ''P4'' = Some ''SupplierE''
   \<and> find (\<lambda>q. q_PartNumber q = ''P4'' \<and> q_Supplier q = ''SupplierE'') ex_quotes
     = Some \<lparr>q_Supplier = ''SupplierE'', q_PartNumber = ''P4'', q_UnitPrice = 10,
              q_AvailableQty = 10\<rparr>
   \<and> part_lines ''P4'' (final_allocation insertion_sort ex_orders ex_quotes ex_selections)
     = [\<lparr>a_PartNumber = ''P4'', a_Supplier = ''SupplierE'', a_QtyAllocated = 5,
         a_UnitPrice = 10, a_TotalCost = 50, a_AllocationSource = ''Manual Selection''\<rparr>]"
proof -
  have h1: "find (\<lambda>r. o_PartNumber r = ''P4'') ex_orders
     = Some \<lparr>o_PartNumber = ''P4'', o_QtyRequired = 5\<rparr>"
    by (simp add: ex_orders_def)
  have h2: "ex_selections ''P4'' = Some ''SupplierE''"
    by (simp add: ex_selections_def)
  have h3: "find (\<lambda>q. q_PartNumber q = ''P4'' \<and> q_Supplier q = ''SupplierE'') ex_quotes
     = Some \<lparr>q_Supplier = ''SupplierE'', q_PartNumber = ''P4'', q_UnitPrice = 10,
              q_AvailableQty = 10\<rparr>"
    by (simp add: ex_quotes_def)
  have h4: "o_QtyRequired \<lparr>o_PartNumber = ''P4'', o_QtyRequired = 5\<rparr>
     \<le> q_AvailableQty \<lparr>q_Supplier = ''SupplierE'', q_PartNumber = ''P4'', q_UnitPrice = 10,
              q_AvailableQty = 10\<rparr>"
    by simp
  show ?thesis
    using h1 h2 h3 pin_precedence[where supplier_selections = ex_selections and srt = insertion_sort,
        OF h1 h2 h3 h4]
    by simp
qed

text \<open>
  Claim C6. If a part is pinned to a supplier whose first offer for the part has less
  than the required quantity (over quote rows of positive availability, as the cleaned
  quote table has them), the part's allocation is: one line for the whole availability
  of that offer, with source Manual Selection (Partial); then the lines that the walk of
  the auto path emits for the remaining quantity over the other suppliers' rows for the
  part, sorted by unit price, each relabelled Auto-Optimized (Remaining); then the
  Shortage line if a remainder is left. The rows walked are in ascending unit price, so
  are the lines emitted, and none of them is of the pinned supplier.
\<close>

theorem partial_pin:
  assumes "sorts_by_price srt"
      and "list_all (\<lambda>q. 0 < q_AvailableQty q) quotes_df"
      and "find (\<lambda>r. o_PartNumber r = part) orders = Some ord"
      and "supplier_selections part = Some s"
      and "find (\<lambda>q. q_PartNumber q = part \<and> q_Supplier q = s) quotes_df = Some offer"
      and "q_AvailableQty offer < o_QtyRequired ord"
  shows "let others = srt (filter (\<lambda>q. q_PartNumber q = part \<and> q_Supplier q \<noteq> s) quotes_df);
             (ls, r) = auto_loop part (o_QtyRequired ord - q_AvailableQty offer) others
         in part_lines part (final_allocation srt orders quotes_df supplier_selections)
            = \<lparr>a_PartNumber = part, a_Supplier = s,
                a_QtyAllocated = q_AvailableQty offer, a_UnitPrice = q_UnitPrice offer,
                a_TotalCost = q_AvailableQty offer * q_UnitPrice offer,
                a_AllocationSource = ''Manual Selection (Partial)''\<rparr>
              # map relabel_remaining ls
              @ (if r > 0 then [shortage_line part r] else [])
          \<and> sorted (map q_UnitPrice others)
          \<and> sorted (map a_UnitPrice ls)
          \<and> list_all (\<lambda>l. a_Supplier l \<noteq> s) ls"
proof -
  let ?others = "filter (\<lambda>q. q_PartNumber q = part \<and> q_Supplier q \<noteq> s) quotes_df"
  let ?d = "o_QtyRequired ord - q_AvailableQty offer"
  obtain rest where Cons:
    "filter (\<lambda>q. q_PartNumber q = part \<and> q_Supplier q = s) quotes_df = offer # rest"
    using find_filter_Cons[OF assms(5)] by blast
  have pos: "\<forall>q\<in>set quotes_df. 0 < q_AvailableQty q"
    using assms(2) by (simp add: list_all_iff)
  have same: "filter (\<lambda>q. q_PartNumber q = part \<and> q_Supplier q \<noteq> s \<and> 0 < q_AvailableQty q) quotes_df
              = ?others"
    using pos by (auto intro: filter_cong)
  have "\<forall>q\<in>set (srt ?others). 0 < q_AvailableQty q"
    using pos by (simp add: sorter_set[OF assms(1)])
  note rl = remaining_loop_auto_loop[OF this, of part ?d]
  have b: "part_body srt quotes_df supplier_selections part (o_QtyRequired ord)
        = (\<lparr>a_PartNumber = part, a_Supplier = s,
                a_QtyAllocated = q_AvailableQty offer, a_UnitPrice = q_UnitPrice offer,
                a_TotalCost = q_AvailableQty offer * q_UnitPrice offer,
                a_AllocationSource = ''Manual Selection (Partial)''\<rparr>
              # map relabel_remaining (fst (auto_loop part ?d (srt ?others))),
           snd (auto_loop part ?d (srt ?others)))"
    using assms(4,6) Cons by (simp add: part_body_def Let_def same rl)
  have so: "sorted (map q_UnitPrice (srt ?others))"
    by (rule sorter_sorted[OF assms(1)])
  have sup: "list_all (\<lambda>l. a_Supplier l \<noteq> s) (fst (auto_loop part ?d (srt ?others)))"
    unfolding list_all_iff
  proof
    fix l assume "l \<in> set (fst (auto_loop part ?d (srt ?others)))"
    from auto_loop_suppliers[OF this] show "a_Supplier l \<noteq> s"
      by (auto simp: sorter_set[OF assms(1)])
  qed
  show ?thesis
    using part_lines_final_allocation[OF assms(3)] allocate_part_eq[OF b] so
      auto_loop_sorted[OF so] sup
    by (simp add: Let_def case_prod_unfold)
qed

theorem partial_pin_witness:
  "sorts_by_price insertion_sort
   \<and> list_all (\<lambda>q. 0 < q_AvailableQty q) ex_quotes
   \<and> find (\<lambda>r. o_PartNumber r = ''P3'') ex_orders
     = Some \<lparr>o_PartNumber = ''P3'', o_QtyRequired = 10\<rparr>
   \<and> ex_selections ''P3'' = Some ''SupplierC''
   \<and> find (\<lambda>q. q_PartNumber q = ''P3'' \<and> q_Supplier q = ''SupplierC'') ex_quotes
     = Some \<lparr>q_Supplier = ''SupplierC'', q_PartNumber = ''P3'', q_UnitPrice = 8,
              q_AvailableQty = 3\<rparr>
   \<and> part_lines ''P3'' (final_allocation insertion_sort ex_orders ex_quotes ex_selections)
     = [\<lparr>a_PartNumber = ''P3'', a_Supplier = ''SupplierC'', a_QtyAllocated = 3,
         a_UnitPrice = 8, a_TotalCost = 24,
         a_AllocationSource = ''Manual Selection (Partial)''\<rparr>,
        \<lparr>a_PartNumber = ''P3'', a_Supplier = ''SupplierD'', a_QtyAllocated = 7,
         a_UnitPrice = 3, a_TotalCost = 21,
         a_AllocationSource = ''Auto-Optimized (Remaining)''\<rparr>]"
proof -
  have h1: "sorts_by_price insertion_sort"
    by (rule sorts_by_price_insertion_sort)
  have h2: "list_all (\<lambda>q. 0 < q_AvailableQty q) ex_quotes"
    by (simp add: ex_quotes_def)
  have h3: "find (\<lambda>r. o_PartNumber r = ''P3'') ex_orders
     = Some \<lparr>o_PartNumber = ''P3'', o_QtyRequired = 10\<rparr>"
    by (simp add: ex_orders_def)
  have h4: "ex_selections ''P3'' = Some ''SupplierC''"
    by (simp add: ex_selections_def)
  have h5: "find (\<lambda>q. q_PartNumber q = ''P3'' \<and> q_Supplier q = ''SupplierC'') ex_quotes
     = Some \<lparr>q_Supplier = ''SupplierC'', q_PartNumber = ''P3'', q_UnitPrice = 8,
              q_AvailableQty = 3\<rparr>"
    by (simp add: ex_quotes_def)
  have h6: "q_AvailableQty \<lparr>q_Supplier = ''SupplierC'', q_PartNumber = ''P3'', q_UnitPrice = 8,
              q_AvailableQty = 3\<rparr> < o_QtyRequired \<lparr>o_PartNumber = ''P3'', o_QtyRequired = 10\<rparr>"
    by simp
  have others: "insertion_sort (filter (\<lambda>q. q_PartNumber q = ''P3'' \<and> q_Supplier q \<noteq> ''SupplierC'') ex_quotes)
     = [\<lparr>q_Supplier = ''SupplierD'', q_PartNumber = ''P3'', q_UnitPrice = 3, q_AvailableQty = 20\<rparr>]"
    by (simp add: ex_quotes_def insertion_sort_def)
  show ?thesis
    using h1 h2 h3 h4 h5
      partial_pin[where supplier_selections = ex_selections, OF h1 h2 h3 h4 h5 h6]
    by (simp add: others Let_def relabel_remaining_def)
qed

text \<open>
  Claim C7, as the code has it. For an ordered part and a supplier (other than the
  shortage sentinel), over quote rows of non-negative availability: the quantity the
  final allocation gives the supplier for the part is at most the sum of the available
  quantities of that supplier's rows for the part, which is the quoted quantity when
  the pair has one row. If the part is pinned to the supplier, it is at most the
  available quantity of the first of these rows: there the first row alone is used.
\<close>

theorem availability_cap:
  assumes "sorts_by_price srt"
      and "\<forall>q\<in>set quotes_df. 0 \<le> q_AvailableQty q"
      and "find (\<lambda>r. o_PartNumber r = part) orders = Some ord"
      and "s \<noteq> ''N/A (SHORTAGE)''"
  shows "supplier_qty part s (final_allocation srt orders quotes_df supplier_selections)
           \<le> quoted_qty part s quotes_df
       \<and> (\<forall>offer. supplier_selections part = Some s
             \<and> find (\<lambda>q. q_PartNumber q = part \<and> q_Supplier q = s) quotes_df = Some offer
           \<longrightarrow> supplier_qty part s (final_allocation srt orders quotes_df supplier_selections)
                 \<le> q_AvailableQty offer)"
proof -
  obtain ls r where b:
    "part_body srt quotes_df supplier_selections part (o_QtyRequired ord) = (ls, r)"
    by fastforce
  note eq = supplier_qty_final_allocation[OF assms(3,4) b]
  show ?thesis
    unfolding eq
    using part_body_supplier_bound[OF assms(1,2) b, of s]
          part_body_pinned_bound[OF assms(1,2) _ _ b, of s]
    by blast
qed

theorem availability_cap_witness:
  "sorts_by_price insertion_sort
   \<and> list_all (\<lambda>q. 0 \<le> q_AvailableQty q) ex_quotes
   \<and> find (\<lambda>r. o_PartNumber r = ''P3'') ex_orders
     = Some \<lparr>o_PartNumber = ''P3'', o_QtyRequired = 10\<rparr>
   \<and> ''SupplierC'' \<noteq> ''N/A (SHORTAGE)''
   \<and> ex_selections ''P3'' = Some ''SupplierC''
   \<and> find (\<lambda>q. q_PartNumber q = ''P3'' \<and> q_Supplier q = ''SupplierC'') ex_quotes
     = Some \<lparr>q_Supplier = ''SupplierC'', q_PartNumber = ''P3'', q_UnitPrice = 8,
              q_AvailableQty = 3\<rparr>
   \<and> quoted_qty ''P3'' ''SupplierC'' ex_quotes = 3
   \<and> supplier_qty ''P3'' ''SupplierC''
        (final_allocation insertion_sort ex_orders ex_quotes ex_selections) \<le> 3"
proof -
  have h1: "sorts_by_price insertion_sort"
    by (rule sorts_by_price_insertion_sort)
  have h2: "\<forall>q\<in>set ex_quotes. 0 \<le> q_AvailableQty q"
    by (simp add: ex_quotes_def)
  have h3: "find (\<lambda>r. o_PartNumber r = ''P3'') ex_orders
     = Some \<lparr>o_PartNumber = ''P3'', o_QtyRequired = 10\<rparr>"
    by (simp add: ex_orders_def)
  have h4: "''SupplierC'' \<noteq> ''N/A (SHORTAGE)''"
    by simp
  have h5: "ex_selections ''P3'' = Some ''SupplierC''"
    by (simp add: ex_selections_def)
  have h6: "find (\<lambda>q. q_PartNumber q = ''P3'' \<and> q_Supplier q = ''SupplierC'') ex_quotes
     = Some \<lparr>q_Supplier = ''SupplierC'', q_PartNumber = ''P3'', q_UnitPrice = 8,
              q_AvailableQty = 3\<rparr>"
    by (simp add: ex_quotes_def)
  have q: "quoted_qty ''P3'' ''SupplierC'' ex_quotes = 3"
    by (simp add: quoted_qty_def ex_quotes_def)
  show ?thesis
    using h1 h2 h3 h5 h6 q
      availability_cap[where supplier_selections = ex_selections, OF h1 h2 h3 h4]
    by (simp add: list_all_iff)
qed

text \<open>
  Claim C7 as the specification states it fails in the sample session: \<open>SupplierA\<close>
  quotes \<open>P7\<close> twice, for 3 and for 4 units; the auto path uses both rows and gives
  \<open>SupplierA\<close> 7 units, more than the 3 of the first row.
\<close>

theorem availability_cap_counterexample:
  "find (\<lambda>q. q_PartNumber q = ''P7'' \<and> q_Supplier q = ''SupplierA'') ex_quotes
     = Some \<lparr>q_Supplier = ''SupplierA'', q_PartNumber = ''P7'', q_UnitPrice = 1,
              q_AvailableQty = 3\<rparr>
   \<and> supplier_qty ''P7'' ''SupplierA''
        (final_allocation insertion_sort ex_orders ex_quotes ex_selections) = 7
   \<and> \<not> supplier_qty ''P7'' ''SupplierA''
        (final_allocation insertion_sort ex_orders ex_quotes ex_selections)
       \<le> q_AvailableQty \<lparr>q_Supplier = ''SupplierA'', q_PartNumber = ''P7'', q_UnitPrice = 1,
              q_AvailableQty = 3\<rparr>"
  by (simp add: supplier_qty_def total_qty_def final_allocation_def allocate_part_def
      part_body_def shortage_line_def ex_orders_def ex_quotes_def ex_selections_def
      insertion_sort_def)


text \<open>
  Claim C8 says that offers of equal unit price are consumed in their input order. The
  program leaves the order of such rows to \<^verbatim>\<open>sort_values('UnitPrice')\<close>, called with the
  default \<^verbatim>\<open>kind\<close>. In the model, the order is not fixed by what is known of the sorter:
  both sorters below return the rows in ascending unit price, and for the same order and
  quotes the final allocation takes the part from a different supplier.
\<close>

lemma sorts_by_price_tie_reversing_sort: "sorts_by_price tie_reversing_sort"
proof -
  have "sorted (map q_UnitPrice (rev (sort_key (\<lambda>q. - q_UnitPrice q) qs)))" for qs
  proof -
    have "sorted (map (\<lambda>q. - q_UnitPrice q) (sort_key (\<lambda>q. - q_UnitPrice q) qs))"
      by (rule sorted_sort_key)
    then have "sorted_wrt (\<lambda>x y. q_UnitPrice y \<le> q_UnitPrice x) (sort_key (\<lambda>q. - q_UnitPrice q) qs)"
      by (simp add: sorted_wrt_map)
    then show ?thesis
      by (simp add: sorted_wrt_map sorted_wrt_rev rev_map[symmetric])
  qed
  note s = this
  show ?thesis
    unfolding sorts_by_price_def tie_reversing_sort_def
  proof (intro allI conjI)
    fix qs
    show "sorted (map q_UnitPrice (rev (sort_key (\<lambda>q. - q_UnitPrice q) qs)))"
      by (rule s)
    show "mset (rev (sort_key (\<lambda>q. - q_UnitPrice q) qs)) = mset qs"
      by simp
  qed
qed

lemma tie_order_depends_on_sorter:
  "sorts_by_price insertion_sort \<and> sorts_by_price tie_reversing_sort
   \<and> map a_Supplier (final_allocation insertion_sort ex_tie_orders ex_tie_quotes Map.empty)
     = [''SupplierG'']
   \<and> map a_Supplier (final_allocation tie_reversing_sort ex_tie_orders ex_tie_quotes Map.empty)
     = [''SupplierH'']"
proof -
  have "map a_Supplier (final_allocation insertion_sort ex_tie_orders ex_tie_quotes Map.empty)
     = [''SupplierG'']"
    by (simp add: final_allocation_def allocate_part_def part_body_def shortage_line_def
        ex_tie_orders_def ex_tie_quotes_def insertion_sort_def)
  moreover have "map a_Supplier (final_allocation tie_reversing_sort ex_tie_orders ex_tie_quotes Map.empty)
     = [''SupplierH'']"
    by (simp add: final_allocation_def allocate_part_def part_body_def shortage_line_def
        ex_tie_orders_def ex_tie_quotes_def tie_reversing_sort_def)
  ultimately show ?thesis
    using sorts_by_price_insertion_sort sorts_by_price_tie_reversing_sort by simp
qed

text \<open>
  Claim C9. Generating the final allocation from two session states with the same
  selections, over the same orders and offers, stores the same list, whatever list or
  absence of a list was stored before; in particular a second run after the first stores
  the list of the first. The run leaves the selections as they are.
\<close>

theorem idempotence:
  assumes "st_supplier_selections st' = st_supplier_selections st"
  shows "st_final_allocation (generate_final_allocation srt orders quotes_df st')
         = st_final_allocation (generate_final_allocation srt orders quotes_df st)
       \<and> st_final_allocation (generate_final_allocation srt orders quotes_df
                                (generate_final_allocation srt orders quotes_df st))
         = st_final_allocation (generate_final_allocation srt orders quotes_df st)
       \<and> st_supplier_selections (generate_final_allocation srt orders quotes_df st)
         = st_supplier_selections st"
  using assms by (simp add: generate_final_allocation_def)

theorem idempotence_witness:
  "st_supplier_selections \<lparr>st_supplier_selections = ex_selections,
       st_optimized_allocation = [], st_final_allocation = Some []\<rparr>
     = st_supplier_selections \<lparr>st_supplier_selections = ex_selections,
       st_optimized_allocation = [], st_final_allocation = None\<rparr>
   \<and> st_final_allocation (generate_final_allocation insertion_sort ex_orders ex_quotes
        \<lparr>st_supplier_selections = ex_selections,
         st_optimized_allocation = [], st_final_allocation = Some []\<rparr>)
     = st_final_allocation (generate_final_allocation insertion_sort ex_orders ex_quotes
        \<lparr>st_supplier_selections = ex_selections,
         st_optimized_allocation = [], st_final_allocation = None\<rparr>)"
proof -
  have h: "st_supplier_selections \<lparr>st_supplier_selections = ex_selections,
       st_optimized_allocation = [], st_final_allocation = Some []\<rparr>
     = st_supplier_selections \<lparr>st_supplier_selections = ex_selections,
       st_optimized_allocation = [], st_final_allocation = None\<rparr>"
    by simp
  show ?thesis
    using h idempotence[OF h, of insertion_sort ex_orders ex_quotes] by blast
qed

text \<open>
  Claim C10. The final allocation is the concatenation, over the order rows that are the
  first of their part number, of the allocation of that row's part for that row's
  quantity; these rows have pairwise different part numbers, so each part is allocated
  once; and removing the later rows of a repeated part number changes nothing.
\<close>

theorem duplicate_order_rows:
  "final_allocation srt orders quotes_df supplier_selections
   = concat (map (\<lambda>r. allocate_part srt quotes_df supplier_selections
                         (o_PartNumber r) (o_QtyRequired r)) (first_rows orders))
   \<and> distinct (map o_PartNumber (first_rows orders))
   \<and> final_allocation srt (first_rows orders) quotes_df supplier_selections
     = final_allocation srt orders quotes_df supplier_selections"
proof (intro conjI)
  show "final_allocation srt orders quotes_df supplier_selections
   = concat (map (\<lambda>r. allocate_part srt quotes_df supplier_selections
                         (o_PartNumber r) (o_QtyRequired r)) (first_rows orders))"
    by (rule final_allocation_first_rows)
  show "distinct (map o_PartNumber (first_rows orders))"
    by (rule distinct_first_rows)
  have "first_rows (first_rows orders) = first_rows orders"
    by (rule first_rows_distinct[OF distinct_first_rows])
  then show "final_allocation srt (first_rows orders) quotes_df supplier_selections
     = final_allocation srt orders quotes_df supplier_selections"
    by (simp add: final_allocation_first_rows)
qed

end
